theory Spec2Isabelle
  imports Complex_Main "HOL-Library.Multiset"
begin

section \<open>Numbers, vectors and errors\<close>

text \<open>
  The renderer computes on \<open>float64\<close> (and stores depth keys as \<open>float32\<close>). The
  embedding reads every float as a \<^typ>\<open>real\<close>: comparisons and arithmetic are the exact
  ones, so rounding and NaN are outside the model. A \<open>vector.Vector\<close> is a Go slice of
  floats, here a list. Go's \<open>int\<close> is read as \<^typ>\<open>int\<close> or \<^typ>\<open>nat\<close>: the counts
  that occur (triangles, vertices) stay far below \<open>2^63\<close>.
\<close>

type_synonym Vector = "real list"

text \<open>A clip-space result \<open>(x, y, z, w)\<close>, the four results of \<open>fastMatrixMultVecW\<close>.\<close>

type_synonym Clip = "real \<times> real \<times> real \<times> real"

text \<open>
  Failures of the Go code: a run-time panic (nil dereference, index out of range, explicit
  \<open>panic\<close>), and the error value that \<open>DynamicBatchAdd\<close> returns.
\<close>

datatype error = Panic | TooManyTriangles

definition MaxFloat32 :: real where
  "MaxFloat32 = (2 - 1 / 2 ^ 23) * 2 ^ 127"

definition MaxFloat64 :: real where
  "MaxFloat64 = (2 - 1 / 2 ^ 52) * 2 ^ 1023"

section \<open>The vertex pipeline: \<open>Model.ProcessVertices\<close> (model.go)\<close>

text \<open>
  The working record of a mesh part, one per triangle: the triangle id, the depth key and
  the rendered flag.
\<close>

record sortingTriangle =
  ID :: nat
  depth :: real
  rendered :: bool

text \<open>
  The sort mode of a material is compared with two constants in \<open>ProcessVertices\<close>; any
  other value takes neither branch.
\<close>

datatype TriangleSortMode =
  TriangleSortModeBackToFront | TriangleSortModeFrontToBack | TriangleSortModeOther

record Material =
  TriangleSortMode :: TriangleSortMode

text \<open>
  What one call of \<open>ProcessVertices\<close> reads. The matrix type and the functions
  \<open>fastMatrixMultVecW\<close>, \<open>fastMatrixMult\<close> and \<open>Model.Transform\<close> are not part of the
  source files at hand, so the two matrices that the loops multiply with (\<open>vpMatrix\<close> on
  the skinned path, \<open>mvp\<close> on the other) and the multiplication are fields of the
  environment, as is the position that \<open>model.skinVertex\<close> returns for a vertex index and
  the conversion \<open>float32(depth)\<close>. Vertex buffers are total functions of the index: the
  model is of meshes whose buffers hold three vertices for every triangle id. The state
  that the call changes is the list \<open>meshPart.sortingTriangles\<close>; the copies of the
  projected and skinned vertices that the loops store in the Mesh are not part of it.
\<close>

record 'm ProcessEnv =
  Skinned :: bool
  VertexTransformFunction :: "(Vector \<Rightarrow> nat \<Rightarrow> Vector) option"
  skinVertexPos :: "nat \<Rightarrow> Vector"
  VertexPositions :: "nat \<Rightarrow> Vector"
  fastMatrixMultVecW :: "'m \<Rightarrow> Vector \<Rightarrow> Clip"
  vpMatrix :: 'm
  mvp :: 'm
  Far :: real
  float32 :: "real \<Rightarrow> real"
  PartMaterial :: "Material option"

text \<open>\<open>if transformFunc != nil { vertPos = transformFunc(vertPos, index) }\<close>\<close>

definition applyTransformFunc ::
  "(Vector \<Rightarrow> nat \<Rightarrow> Vector) option \<Rightarrow> Vector \<Rightarrow> nat \<Rightarrow> Vector" where
  "applyTransformFunc tf p i = (case tf of None \<Rightarrow> p | Some f \<Rightarrow> f p i)"

text \<open>
  The body of the inner loop \<open>for v := 0; v < 3; v++\<close> of the skinned path (lines
  458 to 483), on the pair \<open>(depth, outOfBounds)\<close>.
\<close>

definition skinnedVertexStep ::
  "'m ProcessEnv \<Rightarrow> sortingTriangle \<Rightarrow> nat \<Rightarrow> real \<times> bool \<Rightarrow> real \<times> bool" where
  "skinnedVertexStep env tri v st =
     (case st of (depth0, outOfBounds0) \<Rightarrow>
        (let vertPos = applyTransformFunc (VertexTransformFunction env)
                         (skinVertexPos env (ID tri * 3 + v)) (ID tri * 3 + v)
         in case fastMatrixMultVecW env (vpMatrix env) vertPos of (x, y, z, w) \<Rightarrow>
              (let outOfBounds1 = (if w \<ge> 0 \<and> z < Far env then False else outOfBounds0);
                   depth1 = (if w < depth0 then w else depth0)
               in (depth1, outOfBounds1))))"

text \<open>One iteration of the outer loop of the skinned path (lines 450 to 492).\<close>

definition processSkinnedTriangle :: "'m ProcessEnv \<Rightarrow> sortingTriangle \<Rightarrow> sortingTriangle" where
  "processSkinnedTriangle env tri =
     (case fold (skinnedVertexStep env tri) [0, 1, 2] (MaxFloat32, True) of
        (depth1, outOfBounds) \<Rightarrow>
          if outOfBounds then tri\<lparr>rendered := False\<rparr>
          else tri\<lparr>depth := float32 env depth1\<rparr>)"

text \<open>
  The body of the inner loop \<open>for i := 0; i < 3; i++\<close> of the non-skinned path (lines
  548 to 566).
\<close>

definition staticVertexStep ::
  "'m ProcessEnv \<Rightarrow> nat \<Rightarrow> nat \<Rightarrow> real \<times> bool \<Rightarrow> real \<times> bool" where
  "staticVertexStep env triID i st =
     (case st of (depth0, outOfBounds0) \<Rightarrow>
        (let v0 = applyTransformFunc (VertexTransformFunction env)
                    (VertexPositions env (triID * 3 + i)) (triID * 3 + i)
         in case fastMatrixMultVecW env (mvp env) v0 of (t0, t1, t2, t3) \<Rightarrow>
              (let depth1 = (if t3 < depth0 then t3 else depth0);
                   outOfBounds1 = (if t3 \<ge> 0 \<and> t2 < Far env then False else outOfBounds0)
               in (depth1, outOfBounds1))))"

text \<open>
  One iteration of the outer loop of the non-skinned path (lines 531 to 575): the flag is
  set before the vertices are looked at and cleared again when all three are out of range.
\<close>

definition processStaticTriangle :: "'m ProcessEnv \<Rightarrow> sortingTriangle \<Rightarrow> sortingTriangle" where
  "processStaticTriangle env tri =
     (let triID = ID tri;
          tri1 = tri\<lparr>rendered := True\<rparr>
      in case fold (staticVertexStep env triID) [0, 1, 2] (MaxFloat64, True) of
           (depth1, outOfBounds) \<Rightarrow>
             if outOfBounds then tri1\<lparr>rendered := False\<rparr>
             else tri1\<lparr>depth := float32 env depth1\<rparr>)"

text \<open>
  \<open>sort.SliceStable\<close> of the Go standard library: a stable sort by the given \<open>less\<close>.
  The model is the stable insertion sort; an element goes behind every element that is
  strictly less and in front of the first one that is not.
\<close>

fun insertStable :: "('a \<Rightarrow> 'a \<Rightarrow> bool) \<Rightarrow> 'a \<Rightarrow> 'a list \<Rightarrow> 'a list" where
  "insertStable lessf x [] = [x]"
| "insertStable lessf x (y # ys) =
     (if lessf y x then y # insertStable lessf x ys else x # y # ys)"

definition SliceStable :: "('a \<Rightarrow> 'a \<Rightarrow> bool) \<Rightarrow> 'a list \<Rightarrow> 'a list" where
  "SliceStable lessf xs = foldr (insertStable lessf) xs []"

text \<open>The choice of the sort at the end of \<open>ProcessVertices\<close> (lines 579 to 595).\<close>

definition partSortMode :: "Material option \<Rightarrow> TriangleSortMode" where
  "partSortMode mat =
     (case mat of None \<Rightarrow> TriangleSortModeBackToFront | Some m \<Rightarrow> TriangleSortMode m)"

definition sortTriangles :: "Material option \<Rightarrow> sortingTriangle list \<Rightarrow> sortingTriangle list" where
  "sortTriangles mat ts =
     (let sortMode = partSortMode mat
      in if sortMode = TriangleSortModeBackToFront
         then SliceStable (\<lambda>a b. depth a > depth b) ts
         else if sortMode = TriangleSortModeFrontToBack
         then SliceStable (\<lambda>a b. depth a < depth b) ts
         else ts)"

text \<open>The visibility and depth pass over \<open>meshPart.sortingTriangles\<close>, before the sort.\<close>

definition visibilityPass :: "'m ProcessEnv \<Rightarrow> sortingTriangle list \<Rightarrow> sortingTriangle list" where
  "visibilityPass env ts =
     (if Skinned env then map (processSkinnedTriangle env) ts
      else map (processStaticTriangle env) ts)"

definition ProcessVertices :: "'m ProcessEnv \<Rightarrow> sortingTriangle list \<Rightarrow> sortingTriangle list" where
  "ProcessVertices env ts = sortTriangles (PartMaterial env) (visibilityPass env ts)"

text \<open>
  The visibility test in the words of the specification: a projected vertex is in range
  when \<open>w \<ge> 0\<close> and its depth is below the far plane, and a triangle passes when one of
  its three projected vertices is in range.
\<close>

definition inRange :: "real \<Rightarrow> Clip \<Rightarrow> bool" where
  "inRange far c = (case c of (x, y, z, w) \<Rightarrow> w \<ge> 0 \<and> z < far)"

definition projectedVertex :: "'m ProcessEnv \<Rightarrow> nat \<Rightarrow> Clip" where
  "projectedVertex env idx =
     (if Skinned env
      then fastMatrixMultVecW env (vpMatrix env)
             (applyTransformFunc (VertexTransformFunction env) (skinVertexPos env idx) idx)
      else fastMatrixMultVecW env (mvp env)
             (applyTransformFunc (VertexTransformFunction env) (VertexPositions env idx) idx))"

definition passesVisibility :: "'m ProcessEnv \<Rightarrow> sortingTriangle \<Rightarrow> bool" where
  "passesVisibility env tri =
     (inRange (Far env) (projectedVertex env (ID tri * 3))
      \<or> inRange (Far env) (projectedVertex env (ID tri * 3 + 1))
      \<or> inRange (Far env) (projectedVertex env (ID tri * 3 + 2)))"

section \<open>Skinning: \<open>Model.skinVertex\<close> and \<open>Model.ReassignBones\<close> (model.go)\<close>

text \<open>
  A \<open>Matrix4\<close> is a Go array of four rows of four floats, a value: assigning one copies
  it. Its methods \<open>Clear\<close>, \<open>Add\<close> and \<open>ScaleByScalar\<close> and the pool's \<open>MultVecW\<close> are
  not part of the source files at hand; \<open>skinVertex\<close> takes them as a record of
  operations and is proved correct for every choice of them.
\<close>

type_synonym Matrix4 = "real list list"


text \<open>
  A node of the scene graph, as far as skinning reads it: its name, whether it is a bone,
  the influence matrix that \<open>bone.Transform()\<close> leaves in the bone's cache, and its
  children.
\<close>

datatype INode = Node (name: string) (isBone: bool) (boneInfluence: Matrix4) (children: "INode list")

text \<open>
  The skin state of a Model and the vertex buffers of its Mesh. An entry of \<open>bones\<close> is a
  pointer to a node; \<open>None\<close> is the nil pointer.
\<close>

record SkinModel =
  SkinRoot :: "INode option"
  bones :: "INode option list list"
  skinMatrix :: Matrix4
  VertexWeights :: "real list list"
  MeshVertexPositions :: "Vector list"
  VertexNormals :: "Vector list"






text \<open>
  Modelled from the spec: \<open>INode.ChildrenRecursive\<close> is missing from the source files;
  it lists every descendant of a node: the children of the node first, then the
  descendants of each child in turn.
\<close>

fun ChildrenRecursive :: "INode \<Rightarrow> INode list" where
  "ChildrenRecursive (Node n b infl cs) = cs @ concat (map ChildrenRecursive cs)"

text \<open>
  The loop that fills \<open>boneMap\<close> (lines 344 to 350): a later bone of the same name
  replaces an earlier one.
\<close>

fun fillBoneMap :: "INode list \<Rightarrow> (string \<rightharpoonup> INode) \<Rightarrow> (string \<rightharpoonup> INode)" where
  "fillBoneMap [] boneMap = boneMap"
| "fillBoneMap (b # bs) boneMap =
     fillBoneMap bs (if isBone b then boneMap(name b \<mapsto> b) else boneMap)"

text \<open>
  The inner loop over \<open>model.bones[vertexIndex]\<close> (lines 356 to 358): each entry is
  replaced by the bone of its name, nil when the map has none; reading the name of a nil
  entry panics.
\<close>

fun rebindBones :: "(string \<rightharpoonup> INode) \<Rightarrow> INode option list \<Rightarrow> error + INode option list" where
  "rebindBones boneMap [] = Inr []"
| "rebindBones boneMap (b # bs) =
     (case b of
        None \<Rightarrow> Inl Panic
      | Some n \<Rightarrow>
          (case rebindBones boneMap bs of
             Inl e \<Rightarrow> Inl e
           | Inr bs' \<Rightarrow> Inr (boneMap (name n) # bs')))"

fun rebindAll :: "(string \<rightharpoonup> INode) \<Rightarrow> INode option list list \<Rightarrow> error + INode option list list" where
  "rebindAll boneMap [] = Inr []"
| "rebindAll boneMap (row # rows) =
     (case rebindBones boneMap row of
        Inl e \<Rightarrow> Inl e
      | Inr row' \<Rightarrow>
          (case rebindAll boneMap rows of
             Inl e \<Rightarrow> Inl e
           | Inr rows' \<Rightarrow> Inr (row' # rows')))"

text \<open>
  \<open>ReassignBones\<close>: the result is the Model after the call, or the panic. The argument is
  an interface value, nil when \<open>None\<close>; calling \<open>IsBone\<close> on nil panics.
\<close>

definition ReassignBones :: "SkinModel \<Rightarrow> INode option \<Rightarrow> error + SkinModel" where
  "ReassignBones model armatureRoot =
     (if length (bones model) = 0 then Inr model
      else case armatureRoot of
             None \<Rightarrow> Inl Panic
           | Some rootNode \<Rightarrow>
               if isBone rootNode then Inl Panic
               else let boneMap = fillBoneMap (ChildrenRecursive rootNode) Map.empty
                    in case rebindAll boneMap (bones model) of
                         Inl e \<Rightarrow> Inl e
                       | Inr bones' \<Rightarrow> Inr (model\<lparr>SkinRoot := armatureRoot, bones := bones'\<rparr>))"

section \<open>Dynamic batching, \<open>Merge\<close> and \<open>BakeAO\<close> (model.go)\<close>

text \<open>
  Models are handled through pointers, and \<open>DynamicBatchAdd\<close> writes to the owner and
  to the batched Models, so the Models live in a store from addresses to Models. Of a
  Model the store keeps the fields read and written here: the Mesh (nil when \<open>None\<close>) with
  the lengths of its \<open>Triangles\<close> and \<open>VertexPositions\<close> slices, the map
  \<open>DynamicBatchModels\<close> from mesh-part addresses to slices of Model addresses, as an
  association list with one entry per key, and \<open>DynamicBatchOwner\<close> (nil when \<open>None\<close>).
\<close>

record MeshBuffers =
  TrianglesLen :: nat
  VertexPositionsLen :: nat

record Model =
  ModelMesh :: "MeshBuffers option"
  DynamicBatchModels :: "(nat \<times> nat list) list"
  DynamicBatchOwner :: "nat option"

type_synonym store = "nat \<Rightarrow> Model"

text \<open>
  The constant \<open>maxTriangleCount\<close> is declared outside the source files at hand; its
  value is the one the comment in \<open>Merge\<close> gives (21845 triangles in a single draw call,
  65535 / 3).
\<close>

definition maxTriangleCount :: nat where
  "maxTriangleCount = 21845"

definition modelAlreadyDynamicallyBatched :: "store \<Rightarrow> nat \<Rightarrow> nat \<Rightarrow> bool" where
  "modelAlreadyDynamicallyBatched st model batchedModel =
     list_ex (\<lambda>entry. batchedModel \<in> set (snd entry)) (DynamicBatchModels (st model))"

text \<open>
  The loops of \<open>DynamicBatchTriangleCount\<close>, over the batched Models of all mesh parts;
  \<open>child.Mesh.Triangles\<close> of a Model without Mesh panics.
\<close>

fun countTriangles :: "store \<Rightarrow> nat list \<Rightarrow> nat \<Rightarrow> error + nat" where
  "countTriangles st [] cnt = Inr cnt"
| "countTriangles st (child # rest) cnt =
     (case ModelMesh (st child) of
        None \<Rightarrow> Inl Panic
      | Some mesh \<Rightarrow> countTriangles st rest (cnt + TrianglesLen mesh))"

definition DynamicBatchTriangleCount :: "store \<Rightarrow> nat \<Rightarrow> error + nat" where
  "DynamicBatchTriangleCount st model =
     countTriangles st (concat (map snd (DynamicBatchModels (st model)))) 0"

text \<open>
  The two map assignments of \<open>DynamicBatchAdd\<close> (lines 197 to 201): the slice of
  \<open>meshPart\<close>, created empty when the key is new, gets \<open>other\<close> appended.
\<close>

fun appendToPart :: "nat \<Rightarrow> nat \<Rightarrow> (nat \<times> nat list) list \<Rightarrow> (nat \<times> nat list) list" where
  "appendToPart meshPart other [] = [(meshPart, [other])]"
| "appendToPart meshPart other ((k, slice) # rest) =
     (if k = meshPart then (k, slice @ [other]) # rest
      else (k, slice) # appendToPart meshPart other rest)"

text \<open>
  The store after \<open>other\<close> has been added (lines 197 to 202): the owner's map is
  extended and \<open>other.DynamicBatchOwner\<close> is set.
\<close>

definition batchOne :: "store \<Rightarrow> nat \<Rightarrow> nat \<Rightarrow> nat \<Rightarrow> store" where
  "batchOne st model meshPart other =
     (let st1 = st(model := (st model)
                  \<lparr>DynamicBatchModels :=
                     appendToPart meshPart other (DynamicBatchModels (st model))\<rparr>)
      in st1(other := (st1 other)\<lparr>DynamicBatchOwner := Some model\<rparr>))"

text \<open>
  \<open>DynamicBatchAdd\<close> returns the store it leaves behind together with the error: \<open>None\<close>
  for nil, the error value for too many triangles, or the panic.
\<close>

fun DynamicBatchAdd :: "store \<Rightarrow> nat \<Rightarrow> nat \<Rightarrow> nat list \<Rightarrow> store \<times> error option" where
  "DynamicBatchAdd st model meshPart [] = (st, None)"
| "DynamicBatchAdd st model meshPart (other # rest) =
     (if model = other \<or> modelAlreadyDynamicallyBatched st model other
      then DynamicBatchAdd st model meshPart rest
      else case DynamicBatchTriangleCount st model of
             Inl e \<Rightarrow> (st, Some Panic)
           | Inr triCount \<Rightarrow>
               (case ModelMesh (st other) of
                  None \<Rightarrow> (st, Some Panic)
                | Some mesh \<Rightarrow>
                    if triCount + TrianglesLen mesh > maxTriangleCount
                    then (st, Some TooManyTriangles)
                    else DynamicBatchAdd (batchOne st model meshPart other) model meshPart rest))"

text \<open>
  One round of the outer loop of \<open>DynamicBatchRemove\<close> (lines 212 to 223): in the slice
  of every mesh part the first occurrence of \<open>m\<close> is cut out, and \<open>m\<close> loses its owner
  when it occurred.
\<close>

definition removeBatched :: "nat \<Rightarrow> nat \<Rightarrow> store \<Rightarrow> store" where
  "removeBatched model m st =
     (let found = modelAlreadyDynamicallyBatched st model m;
          st1 = st(model := (st model)
                  \<lparr>DynamicBatchModels :=
                     map (\<lambda>entry. (fst entry, remove1 m (snd entry)))
                       (DynamicBatchModels (st model))\<rparr>)
      in if found then st1(m := (st1 m)\<lparr>DynamicBatchOwner := None\<rparr>) else st1)"

text \<open>The second loop (lines 225 to 229) deletes the keys with an empty slice.\<close>

definition DynamicBatchRemove :: "store \<Rightarrow> nat \<Rightarrow> nat list \<Rightarrow> store" where
  "DynamicBatchRemove st model batched =
     (let st1 = fold (removeBatched model) batched st
      in st1(model := (st1 model)
              \<lparr>DynamicBatchModels :=
                 filter (\<lambda>entry. length (snd entry) \<noteq> 0) (DynamicBatchModels (st1 model))\<rparr>))"

text \<open>
  The first loop of \<open>Merge\<close> (lines 251 to 257); \<open>other.Mesh.VertexPositions\<close> of a Model
  without Mesh panics.
\<close>

fun mergeTotalSize :: "store \<Rightarrow> nat \<Rightarrow> nat list \<Rightarrow> nat \<Rightarrow> error + nat" where
  "mergeTotalSize st model [] totalSize = Inr totalSize"
| "mergeTotalSize st model (other # rest) totalSize =
     (if model = other then mergeTotalSize st model rest totalSize
      else case ModelMesh (st other) of
             None \<Rightarrow> Inl Panic
           | Some mesh \<Rightarrow> mergeTotalSize st model rest (totalSize + VertexPositionsLen mesh))"

text \<open>
  \<open>Merge\<close>. What follows the test of \<open>totalSize\<close> (lines 263 to 326: growing the vertex
  buffers, copying the transformed triangles, the new bounds) works with matrices and
  mesh parts whose code is not in the source files at hand; it is the parameter
  \<open>copyGeometry\<close>, given the store, the target, the sources and \<open>totalSize\<close>.
\<close>

definition Merge ::
  "(store \<Rightarrow> nat \<Rightarrow> nat list \<Rightarrow> nat \<Rightarrow> error + store) \<Rightarrow> store \<Rightarrow> nat \<Rightarrow> nat list \<Rightarrow> error + store"
  where
  "Merge copyGeometry st model models =
     (case mergeTotalSize st model models 0 of
        Inl e \<Rightarrow> Inl e
      | Inr totalSize \<Rightarrow>
          if totalSize = 0 then Inr st
          else copyGeometry st model models totalSize)"

record AOBakeOptions =
  TargetChannel :: int
  OcclusionAngle :: real
  InterModelDistance :: real
  OtherModels :: "nat list"

text \<open>
  \<open>NewDefaultAOBakeOptions\<close>, with \<open>ToRadians(60)\<close> written out; the colour is left out
  of the record.
\<close>

definition NewDefaultAOBakeOptions :: AOBakeOptions where
  "NewDefaultAOBakeOptions =
     \<lparr>TargetChannel = 0, OcclusionAngle = 60 * pi / 180, InterModelDistance = 1,
      OtherModels = []\<rparr>"

text \<open>
  The head of \<open>BakeAO\<close> (lines 631 to 637): nil options are replaced by the defaults, and
  the call returns when the Model has no Mesh or the target channel is negative. The two
  baking passes that follow write vertex colours; they are the parameter \<open>bakePasses\<close>.
  Their proximity tests are modelled below.
\<close>

definition BakeAO ::
  "(store \<Rightarrow> nat \<Rightarrow> AOBakeOptions \<Rightarrow> error + store) \<Rightarrow> store \<Rightarrow> nat \<Rightarrow> AOBakeOptions option
   \<Rightarrow> error + store" where
  "BakeAO bakePasses st model bakeOptions =
     (let opts = (case bakeOptions of None \<Rightarrow> NewDefaultAOBakeOptions | Some given \<Rightarrow> given)
      in if ModelMesh (st model) = None \<or> TargetChannel opts < 0 then Inr st
         else bakePasses st model opts)"

text \<open>
  Modelled from the spec: \<open>fastVectorDistanceSquared\<close> is missing from the source files;
  it is the squared distance of two points of space.
\<close>

definition fastVectorDistanceSquared :: "Vector \<Rightarrow> Vector \<Rightarrow> real" where
  "fastVectorDistanceSquared a b =
     (let x = a ! 0 - b ! 0; y = a ! 1 - b ! 1; z = a ! 2 - b ! 2
      in x * x + y * y + z * z)"

text \<open>A triangle of model.go's Mesh, as far as the proximity tests read it.\<close>

record Triangle =
  Center :: Vector
  MaxSpan :: real

text \<open>
  The proximity test of the same-object pass (lines 655 to 664): \<open>True\<close> when the pair is
  skipped by the \<open>continue\<close>.
\<close>

definition sameModelPairSkipped :: "Triangle \<Rightarrow> Triangle \<Rightarrow> bool" where
  "sameModelPairSkipped tri other =
     (let span0 = MaxSpan tri;
          span1 = (if MaxSpan other > span0 then MaxSpan other else span0);
          span2 = span1 * 0.66
      in fastVectorDistanceSquared (Center tri) (Center other) > span2 * span2)"

text \<open>
  The proximity test of the inter-object pass (lines 727 to 736), with the two world
  transforms and \<open>Matrix4.MultVec\<close>, which is not in the source files at hand.
\<close>

definition interModelPairSkipped ::
  "('m \<Rightarrow> Vector \<Rightarrow> Vector) \<Rightarrow> 'm \<Rightarrow> 'm \<Rightarrow> Triangle \<Rightarrow> Triangle \<Rightarrow> bool" where
  "interModelPairSkipped MultVec transform otherTransform tri otherTri =
     (let span0 = MaxSpan tri;
          span1 = (if MaxSpan otherTri > span0 then MaxSpan otherTri else span0);
          span2 = span1 * 0.66
      in fastVectorDistanceSquared (MultVec transform (Center tri))
           (MultVec otherTransform (Center otherTri)) > span2)"

text \<open>
  The test in the words of the specification: the pair is skipped when the distance of
  the two centroids is more than 0.66 times the larger of the two spans.
\<close>

definition centroidsTooFar :: "Vector \<Rightarrow> Vector \<Rightarrow> real \<Rightarrow> real \<Rightarrow> bool" where
  "centroidsTooFar c1 c2 span1 span2 =
     (sqrt (fastVectorDistanceSquared c1 c2) > 0.66 * max span1 span2)"

text \<open>
  \<open>len(m.Mesh.Triangles)\<close> as a number, and the test that makes \<open>DynamicBatchAdd\<close> return
  its error for \<open>other\<close> (lines 191 to 195), for the statements about the budget.
\<close>

definition trianglesOf :: "store \<Rightarrow> nat \<Rightarrow> nat" where
  "trianglesOf st m = (case ModelMesh (st m) of None \<Rightarrow> 0 | Some mesh \<Rightarrow> TrianglesLen mesh)"

definition overBudget :: "store \<Rightarrow> nat \<Rightarrow> nat \<Rightarrow> bool" where
  "overBudget st model other =
     (case DynamicBatchTriangleCount st model of
        Inl e \<Rightarrow> False
      | Inr triCount \<Rightarrow>
          (case ModelMesh (st other) of
             None \<Rightarrow> False
           | Some mesh \<Rightarrow> triCount + TrianglesLen mesh > maxTriangleCount))"

subsection \<open>The batch relation in the words of the specification\<close>

text \<open>
  The Models batched into an owner, over all its mesh parts, and the slice
  \<open>model.DynamicBatchModels[meshPart]\<close> (empty for a missing key).
\<close>

definition batchedModels :: "store \<Rightarrow> nat \<Rightarrow> nat list" where
  "batchedModels st model = concat (map snd (DynamicBatchModels (st model)))"

definition partSlice :: "store \<Rightarrow> nat \<Rightarrow> nat \<Rightarrow> nat list" where
  "partSlice st model meshPart =
     (case map_of (DynamicBatchModels (st model)) meshPart of None \<Rightarrow> [] | Some slice \<Rightarrow> slice)"

text \<open>
  The Models that a call has to add: those of its arguments that are neither the owner
  nor batched already, each once, in the order of their first occurrence.
\<close>

fun firstOccurrences :: "nat list \<Rightarrow> nat list" where
  "firstOccurrences [] = []"
| "firstOccurrences (x # xs) = x # firstOccurrences (filter (\<lambda>y. y \<noteq> x) xs)"

definition freshModels :: "store \<Rightarrow> nat \<Rightarrow> nat list \<Rightarrow> nat list" where
  "freshModels st model ms =
     firstOccurrences
       (filter (\<lambda>m. m \<noteq> model \<and> \<not> modelAlreadyDynamicallyBatched st model m) ms)"

text \<open>
  What it means that the Models \<open>added\<close> have been batched into \<open>model\<close> on
  \<open>meshPart\<close>, from the store \<open>st\<close> to the store \<open>st'\<close>: the slice of the mesh part is
  extended by them in order and no other key of the map changes; each of them has the
  owner as its batch owner and is otherwise as before; every other Model is unchanged,
  and so are the other fields of the owner. With nothing to add the store is the same.
\<close>

definition addedToBatch :: "store \<Rightarrow> nat \<Rightarrow> nat \<Rightarrow> nat list \<Rightarrow> store \<Rightarrow> bool" where
  "addedToBatch st model meshPart added st' =
     ((added = [] \<longrightarrow> st' = st)
      \<and> (added \<noteq> [] \<longrightarrow>
            map_of (DynamicBatchModels (st' model))
            = (map_of (DynamicBatchModels (st model)))
                (meshPart \<mapsto> partSlice st model meshPart @ added))
      \<and> ModelMesh (st' model) = ModelMesh (st model)
      \<and> DynamicBatchOwner (st' model) = DynamicBatchOwner (st model)
      \<and> (\<forall>m\<in>set added. st' m = (st m)\<lparr>DynamicBatchOwner := Some model\<rparr>)
      \<and> (\<forall>m. m \<noteq> model \<longrightarrow> m \<notin> set added \<longrightarrow> st' m = st m))"

text \<open>
  The outcome that the budget decides: no error when there is nothing to add, or when
  the triangles batched so far and those of the Models to add fit into the maximum; the
  budget error otherwise.
\<close>

definition budgetOutcome :: "store \<Rightarrow> nat \<Rightarrow> nat list \<Rightarrow> error option" where
  "budgetOutcome st triCount added =
     (if added = [] \<or> triCount + sum_list (map (trianglesOf st) added) \<le> maxTriangleCount
      then None
      else Some TooManyTriangles)"

text \<open>
  A batch as \<open>DynamicBatchAdd\<close> builds it: one entry per mesh part, and no Model batched
  twice.
\<close>

definition wellBatched :: "store \<Rightarrow> nat \<Rightarrow> bool" where
  "wellBatched st model =
     (distinct (map fst (DynamicBatchModels (st model))) \<and> distinct (batchedModels st model))"

section \<open>The bounds of a mesh: \<open>Mesh.UpdateBounds\<close> (mesh.go)\<close>

text \<open>
  The operations of the vector library that \<open>UpdateBounds\<close> calls: difference, sum,
  scaling and length of vectors.
\<close>

definition vecSub :: "Vector \<Rightarrow> Vector \<Rightarrow> Vector" where
  "vecSub a b = map2 (-) a b"

definition vecAdd :: "Vector \<Rightarrow> Vector \<Rightarrow> Vector" where
  "vecAdd a b = map2 (+) a b"

definition vecScale :: "Vector \<Rightarrow> real \<Rightarrow> Vector" where
  "vecScale a s = map (\<lambda>x. x * s) a"

definition Magnitude :: "Vector \<Rightarrow> real" where
  "Magnitude a = sqrt (sum_list (map (\<lambda>x. x * x) a))"

text \<open>
  Of a vertex the bounds read the position, of the mesh the vertices; the call writes the
  bounding sphere.
\<close>

record Vertex =
  Position :: Vector

record Sphere =
  Radius :: real
  SpherePosition :: Vector

record Mesh =
  Vertices :: "Vertex list"
  BoundingSphere :: Sphere

text \<open>
  One of the three \<open>if \<dots> else if\<close> blocks in the loop of \<open>UpdateBounds\<close> (lines 94 to
  110), for the axis \<open>i\<close>, on the pair of \<open>extent0\<close> and \<open>extent1\<close>.
\<close>

definition updateAxis :: "nat \<Rightarrow> Vertex \<Rightarrow> Vector \<times> Vector \<Rightarrow> Vector \<times> Vector" where
  "updateAxis i v ext =
     (case ext of (extent0, extent1) \<Rightarrow>
        if Position v ! i < extent0 ! i then (extent0[i := Position v ! i], extent1)
        else if Position v ! i > extent1 ! i then (extent0, extent1[i := Position v ! i])
        else (extent0, extent1))"

definition boundsStep :: "Vertex \<Rightarrow> Vector \<times> Vector \<Rightarrow> Vector \<times> Vector" where
  "boundsStep v ext = updateAxis 2 v (updateAxis 1 v (updateAxis 0 v ext))"

text \<open>
  \<open>UpdateBounds\<close>: both extents start at the origin. Reading one of the first three
  components of a shorter position panics.
\<close>

definition UpdateBounds :: "Mesh \<Rightarrow> error + Mesh" where
  "UpdateBounds mesh =
     (if list_ex (\<lambda>v. length (Position v) < 3) (Vertices mesh) then Inl Panic
      else case fold boundsStep (Vertices mesh) ([0, 0, 0], [0, 0, 0]) of
             (extent0, extent1) \<Rightarrow>
               Inr (mesh\<lparr>BoundingSphere :=
                      \<lparr>Radius = Magnitude (vecSub extent1 extent0) / 2,
                       SpherePosition = vecScale (vecAdd extent0 extent1) 0.5\<rparr>\<rparr>))"

text \<open>
  The bounds in the words of the specification: the axis-aligned extent of the vertex
  positions runs from the least to the greatest coordinate on each axis; the sphere has
  the midpoint of the extent as centre and half of its diagonal as radius.
\<close>

definition extentLow :: "Vertex list \<Rightarrow> Vector" where
  "extentLow vs = map (\<lambda>i. Min (set (map (\<lambda>v. Position v ! i) vs))) [0, 1, 2]"

definition extentHigh :: "Vertex list \<Rightarrow> Vector" where
  "extentHigh vs = map (\<lambda>i. Max (set (map (\<lambda>v. Position v ! i) vs))) [0, 1, 2]"

definition extentSphere :: "Vertex list \<Rightarrow> Sphere" where
  "extentSphere vs =
     \<lparr>Radius = Magnitude (vecSub (extentHigh vs) (extentLow vs)) / 2,
      SpherePosition = vecScale (vecAdd (extentLow vs) (extentHigh vs)) 0.5\<rparr>"

text \<open>The same extent with the origin added to the points.\<close>

definition originLow :: "Vertex list \<Rightarrow> Vector" where
  "originLow vs = map (\<lambda>i. Min (insert 0 (set (map (\<lambda>v. Position v ! i) vs)))) [0, 1, 2]"

definition originHigh :: "Vertex list \<Rightarrow> Vector" where
  "originHigh vs = map (\<lambda>i. Max (insert 0 (set (map (\<lambda>v. Position v ! i) vs)))) [0, 1, 2]"

section \<open>The normal of a triangle: \<open>calculateNormal\<close> (mesh.go)\<close>

text \<open>
  The cross product of the vector library, for vectors of three components.
\<close>

definition Cross :: "Vector \<Rightarrow> Vector \<Rightarrow> Vector" where
  "Cross a b =
     [a ! 1 * b ! 2 - a ! 2 * b ! 1, a ! 2 * b ! 0 - a ! 0 * b ! 2, a ! 0 * b ! 1 - a ! 1 * b ! 0]"

text \<open>
  \<open>calculateNormal\<close> ends with \<open>cross.Unit()\<close>. \<open>Unit\<close> belongs to the vector library
  and is not part of the source files, so it is a parameter here. What it does to a
  vector of length zero, where scaling to length one would divide by zero, is not
  fixed by anything in the source files.
\<close>

definition calculateNormal :: "(Vector \<Rightarrow> Vector) \<Rightarrow> Vector \<Rightarrow> Vector \<Rightarrow> Vector \<Rightarrow> Vector" where
  "calculateNormal Unit p1 p2 p3 =
     (let v0 = vecSub p2 p1;
          v1 = vecSub p3 p2
      in Unit (Cross v0 v1))"

text \<open>
  A triangle of mesh.go, as far as \<open>RecalculateNormal\<close> reads and writes it: indexing
  \<open>tri.Vertices\<close> beyond its length panics.
\<close>

record MeshTriangle =
  TriVertices :: "Vertex list"
  Normal :: Vector

definition RecalculateNormal :: "(Vector \<Rightarrow> Vector) \<Rightarrow> MeshTriangle \<Rightarrow> error + MeshTriangle" where
  "RecalculateNormal Unit tri =
     (if length (TriVertices tri) < 3 then Inl Panic
      else Inr (tri\<lparr>Normal := calculateNormal Unit (Position (TriVertices tri ! 0))
                                  (Position (TriVertices tri ! 1)) (Position (TriVertices tri ! 2))\<rparr>))"

text \<open>
  Scaling a vector to length one, as \<open>Unit\<close> does it for a vector whose length is not
  zero.
\<close>

definition scaledToUnit :: "Vector \<Rightarrow> Vector" where
  "scaledToUnit v = map (\<lambda>x. x / Magnitude v) v"

definition unitOnNonZero :: "(Vector \<Rightarrow> Vector) \<Rightarrow> bool" where
  "unitOnNonZero Unit = (\<forall>v. Magnitude v \<noteq> 0 \<longrightarrow> Unit v = scaledToUnit v)"

section \<open>Concrete inputs\<close>

text \<open>
  A frame for the vertex pipeline: every vertex \<open>i\<close> sits at \<open>(0, 0, z + i)\<close>, and the
  projection returns the position with \<open>w\<close> equal to the depth; the far plane is at 100.
\<close>

definition frameEnv :: "bool \<Rightarrow> real \<Rightarrow> Material option \<Rightarrow> unit ProcessEnv" where
  "frameEnv sk z mat =
     \<lparr>Skinned = sk, VertexTransformFunction = None,
      skinVertexPos = (\<lambda>i. [0, 0, z + real i]), VertexPositions = (\<lambda>i. [0, 0, z + real i]),
      fastMatrixMultVecW = (\<lambda>m v. (v ! 0, v ! 1, v ! 2, v ! 2)), vpMatrix = (), mvp = (),
      Far = 100, float32 = (\<lambda>x. x), PartMaterial = mat\<rparr>"


definition translate :: "real \<Rightarrow> real \<Rightarrow> real \<Rightarrow> Matrix4" where
  "translate x y z = [[1, 0, 0, 0], [0, 1, 0, 0], [0, 0, 1, 0], [x, y, z, 1]]"

definition boneA :: INode where
  "boneA = Node ''A'' True (translate 1 0 0) []"

definition boneB :: INode where
  "boneB = Node ''B'' True (translate 0 5 0) []"

definition armature :: INode where
  "armature = Node ''Armature'' False (translate 0 0 0) [boneA, boneB]"

text \<open>
  One vertex at \<open>(1, 2, 3)\<close>, bound to bone A with weight 0, to bone B with weight 1/4,
  to bone A with weight 1 and to bone B with weight 1/2.
\<close>

definition skinnedModel :: SkinModel where
  "skinnedModel =
     \<lparr>SkinRoot = Some armature,
      bones = [[Some boneA, Some boneB, Some boneA, Some boneB]],
      skinMatrix = translate 0 0 0,
      VertexWeights = [[0, 1 / 4, 1, 1 / 2]],
      MeshVertexPositions = [[1, 2, 3]],
      VertexNormals = [[0, 0, 1]]\<rparr>"

definition unskinnedModel :: SkinModel where
  "unskinnedModel =
     \<lparr>SkinRoot = None, bones = [], skinMatrix = translate 0 0 0, VertexWeights = [],
      MeshVertexPositions = [[1, 2, 3]], VertexNormals = [[0, 0, 1]]\<rparr>"

text \<open>
  A store in which every Model has a Mesh of 12000 triangles and nothing is batched; two
  such Models are more than one mesh part takes.
\<close>

definition batchStore :: store where
  "batchStore =
     (\<lambda>a. \<lparr>ModelMesh = Some \<lparr>TrianglesLen = 12000, VertexPositionsLen = 36000\<rparr>,
           DynamicBatchModels = [], DynamicBatchOwner = None\<rparr>)"

text \<open>The same store after Model 1 has been batched into Model 0 on mesh part 7.\<close>

definition batchedStore :: store where
  "batchedStore = batchOne batchStore 0 7 1"

text \<open>A store in which no Model has vertices.\<close>

definition emptyMeshStore :: store where
  "emptyMeshStore =
     (\<lambda>a. \<lparr>ModelMesh = Some \<lparr>TrianglesLen = 0, VertexPositionsLen = 0\<rparr>,
           DynamicBatchModels = [], DynamicBatchOwner = None\<rparr>)"

text \<open>
  A mesh of one triangle, with the corners \<open>(1, 1, 4)\<close>, \<open>(2, 3, 6)\<close> and
  \<open>(1, 3, 4)\<close>, away from the origin.
\<close>

definition cornerMesh :: Mesh where
  "cornerMesh =
     \<lparr>Vertices = [\<lparr>Position = [1, 1, 4]\<rparr>, \<lparr>Position = [2, 3, 6]\<rparr>, \<lparr>Position = [1, 3, 4]\<rparr>],
      BoundingSphere = \<lparr>Radius = 0, SpherePosition = [0, 0, 0]\<rparr>\<rparr>"

text \<open>Two triangles of span 1 whose centroids are 3/4 apart.\<close>

definition triNear :: Triangle where
  "triNear = \<lparr>Center = [0, 0, 0], MaxSpan = 1\<rparr>"

definition triFar :: Triangle where
  "triFar = \<lparr>Center = [3 / 4, 0, 0], MaxSpan = 1\<rparr>"

section \<open>Properties of the vertex pipeline\<close>

subsection \<open>The rendered flag on the two paths\<close>

text \<open>
  On the non-skinned path the flag after the pass is the outcome of the visibility test.
  On the skinned path the flag is only ever cleared: it is set after the pass exactly when
  it was set before and the triangle passes the test.
\<close>

lemma static_rendered_iff:
  "\<not> Skinned env \<Longrightarrow>
   rendered (processStaticTriangle env tri) = passesVisibility env tri"
  by (simp add: processStaticTriangle_def staticVertexStep_def passesVisibility_def
      projectedVertex_def inRange_def Let_def split: prod.splits)

lemma skinned_rendered_iff:
  "Skinned env \<Longrightarrow>
   rendered (processSkinnedTriangle env tri) = (rendered tri \<and> passesVisibility env tri)"
  by (simp add: processSkinnedTriangle_def skinnedVertexStep_def passesVisibility_def
      projectedVertex_def inRange_def Let_def split: prod.splits)

text \<open>
  C1. The claim: on both paths a triangle is marked rendered exactly when one of its three
  projected vertices has \<open>w \<ge> 0\<close> and depth below the far plane. The non-skinned path
  does so (\<open>static_rendered_iff\<close>). The skinned path never sets the flag: a triangle whose
  flag is clear and whose three vertices are all in range (w = 1, 2, 3, far = 100) leaves
  \<open>ProcessVertices\<close> with the flag still clear, where the non-skinned path sets it on
  the same input.
\<close>

theorem skinned_visible_triangle_not_rendered:
  "passesVisibility (frameEnv True 1 None) \<lparr>ID = 0, depth = 0, rendered = False\<rparr>
   \<and> ProcessVertices (frameEnv True 1 None) [\<lparr>ID = 0, depth = 0, rendered = False\<rparr>]
       = [\<lparr>ID = 0, depth = 1, rendered = False\<rparr>]
   \<and> ProcessVertices (frameEnv False 1 None) [\<lparr>ID = 0, depth = 0, rendered = False\<rparr>]
       = [\<lparr>ID = 0, depth = 1, rendered = True\<rparr>]"
  by (simp add: ProcessVertices_def visibilityPass_def sortTriangles_def partSortMode_def
      SliceStable_def processSkinnedTriangle_def skinnedVertexStep_def
      processStaticTriangle_def staticVertexStep_def passesVisibility_def
      projectedVertex_def inRange_def applyTransformFunc_def frameEnv_def MaxFloat32_def
      MaxFloat64_def Let_def)

subsection \<open>The sort\<close>

lemma insertStable_insort_key:
  fixes f :: "'a \<Rightarrow> 'b::linorder"
  shows "insertStable (\<lambda>a b. f a < f b) x ys = insort_key f x ys"
  by (induction ys) (auto simp: not_less)

lemma SliceStable_sort_key:
  fixes f :: "'a \<Rightarrow> 'b::linorder"
  shows "SliceStable (\<lambda>a b. f a < f b) xs = sort_key f xs"
  by (induction xs) (simp_all add: SliceStable_def insertStable_insort_key)

lemma SliceStable_descending:
  "SliceStable (\<lambda>a b. depth a > depth b) ts = sort_key (\<lambda>t. - depth t) ts"
  using SliceStable_sort_key [of "\<lambda>t. - depth t" ts] by simp

lemma SliceStable_ascending:
  "SliceStable (\<lambda>a b. depth a < depth b) ts = sort_key depth ts"
  by (rule SliceStable_sort_key)

lemma sortTriangles_mset: "mset (sortTriangles mat ts) = mset ts"
  by (simp add: sortTriangles_def SliceStable_descending SliceStable_ascending Let_def)

lemma sortTriangles_stable:
  "filter (\<lambda>t. depth t = k) (sortTriangles mat ts) = filter (\<lambda>t. depth t = k) ts"
proof -
  have d: "filter (\<lambda>t. depth t = k) (sort_key (\<lambda>t. - depth t) ts)
           = filter (\<lambda>t. depth t = k) ts"
    using sort_key_stable [of "\<lambda>t. - depth t" "- k" ts] by simp
  have a: "filter (\<lambda>t. depth t = k) (sort_key depth ts) = filter (\<lambda>t. depth t = k) ts"
    by (rule sort_key_stable)
  show ?thesis
    by (simp add: sortTriangles_def SliceStable_descending SliceStable_ascending Let_def d a)
qed

lemma sorted_wrt_descending:
  "sorted_wrt (\<lambda>a b. depth a \<ge> depth b) (sort_key (\<lambda>t. - depth t) ts)"
proof -
  have "sorted (map (\<lambda>t. - depth t) (sort_key (\<lambda>t. - depth t) ts))"
    by (rule sorted_sort_key)
  then show ?thesis
    by (simp add: sorted_map)
qed

lemma sorted_wrt_ascending:
  "sorted_wrt (\<lambda>a b. depth a \<le> depth b) (sort_key depth ts)"
proof -
  have "sorted (map depth (sort_key depth ts))"
    by (rule sorted_sort_key)
  then show ?thesis
    by (simp add: sorted_map)
qed

lemma sortTriangles_idem:
  "sortTriangles mat (sortTriangles mat ts) = sortTriangles mat ts"
  by (simp add: sortTriangles_def SliceStable_descending SliceStable_ascending Let_def
      sort_key_id_if_sorted)

lemma sortTriangles_repeat_stable:
  "filter (\<lambda>t. depth t = k) ((sortTriangles mat ^^ n) ts) = filter (\<lambda>t. depth t = k) ts"
  by (induction n) (simp_all add: sortTriangles_stable)

text \<open>The visibility pass keeps the triangles in place and their ids as they are.\<close>

lemma processSkinnedTriangle_ID: "ID (processSkinnedTriangle env tri) = ID tri"
  by (simp add: processSkinnedTriangle_def split: prod.splits)

lemma processStaticTriangle_ID: "ID (processStaticTriangle env tri) = ID tri"
  by (simp add: processStaticTriangle_def Let_def split: prod.splits)

lemma visibilityPass_ID: "map ID (visibilityPass env ts) = map ID ts"
  by (simp add: visibilityPass_def processSkinnedTriangle_ID processStaticTriangle_ID comp_def)

text \<open>
  C2. After \<open>ProcessVertices\<close> the sorting triangles are the triangles of the visibility
  pass (as a multiset; the pass itself keeps the order of the ids), in descending order of the depth key when the part's mode is
  back-to-front and in ascending order when it is front-to-back; the triangles of any one
  depth key \<open>k\<close> keep the relative order they had before the sort, also after any number
  \<open>n\<close> of further sorts, and sorting the result again changes nothing.
\<close>

theorem ProcessVertices_stable_sort:
  "mset (ProcessVertices env ts) = mset (visibilityPass env ts)
   \<and> map ID (visibilityPass env ts) = map ID ts
   \<and> (partSortMode (PartMaterial env) = TriangleSortModeBackToFront \<longrightarrow>
        sorted_wrt (\<lambda>a b. depth a \<ge> depth b) (ProcessVertices env ts))
   \<and> (partSortMode (PartMaterial env) = TriangleSortModeFrontToBack \<longrightarrow>
        sorted_wrt (\<lambda>a b. depth a \<le> depth b) (ProcessVertices env ts))
   \<and> filter (\<lambda>t. depth t = k) (ProcessVertices env ts)
       = filter (\<lambda>t. depth t = k) (visibilityPass env ts)
   \<and> filter (\<lambda>t. depth t = k) ((sortTriangles (PartMaterial env) ^^ n) (ProcessVertices env ts))
       = filter (\<lambda>t. depth t = k) (visibilityPass env ts)
   \<and> sortTriangles (PartMaterial env) (ProcessVertices env ts) = ProcessVertices env ts"
  by (simp add: ProcessVertices_def sortTriangles_mset sortTriangles_stable sortTriangles_idem
      sortTriangles_repeat_stable visibilityPass_ID)
     (simp add: sortTriangles_def SliceStable_descending SliceStable_ascending
      sorted_wrt_descending sorted_wrt_ascending)

theorem ProcessVertices_stable_sort_witness:
  "partSortMode (PartMaterial (frameEnv False 1 None)) = TriangleSortModeBackToFront
   \<and> sorted_wrt (\<lambda>a b. depth a \<ge> depth b)
        (ProcessVertices (frameEnv False 1 None)
           [\<lparr>ID = 0, depth = 0, rendered = False\<rparr>, \<lparr>ID = 1, depth = 0, rendered = False\<rparr>])
   \<and> partSortMode (PartMaterial (frameEnv False 1
          (Some \<lparr>TriangleSortMode = TriangleSortModeFrontToBack\<rparr>))) = TriangleSortModeFrontToBack
   \<and> sorted_wrt (\<lambda>a b. depth a \<le> depth b)
        (ProcessVertices (frameEnv False 1 (Some \<lparr>TriangleSortMode = TriangleSortModeFrontToBack\<rparr>))
           [\<lparr>ID = 1, depth = 0, rendered = False\<rparr>, \<lparr>ID = 0, depth = 0, rendered = False\<rparr>])"
proof -
  have m1: "partSortMode (PartMaterial (frameEnv False 1 None)) = TriangleSortModeBackToFront"
    by (simp add: partSortMode_def frameEnv_def)
  have m2: "partSortMode (PartMaterial (frameEnv False 1
          (Some \<lparr>TriangleSortMode = TriangleSortModeFrontToBack\<rparr>))) = TriangleSortModeFrontToBack"
    by (simp add: partSortMode_def frameEnv_def)
  show ?thesis
    using m1 m2
      ProcessVertices_stable_sort [of "frameEnv False 1 None"
        "[\<lparr>ID = 0, depth = 0, rendered = False\<rparr>, \<lparr>ID = 1, depth = 0, rendered = False\<rparr>]"]
      ProcessVertices_stable_sort [of "frameEnv False 1 (Some \<lparr>TriangleSortMode = TriangleSortModeFrontToBack\<rparr>)"
        "[\<lparr>ID = 1, depth = 0, rendered = False\<rparr>, \<lparr>ID = 0, depth = 0, rendered = False\<rparr>]"]
    by blast
qed

text \<open>
  C3. The claim: every sorting triangle changes to rendered or culled once per frame, by
  that frame's visibility test, on the skinned path too. On the skinned path a triangle
  that passes the test is not written at all: a triangle culled in one frame (all depths
  at or beyond the far plane) and in range in the next frame is still culled after the
  second call.
\<close>

theorem skinned_triangle_stays_culled_next_frame:
  "ProcessVertices (frameEnv True 200 None) [\<lparr>ID = 0, depth = 0, rendered = True\<rparr>]
     = [\<lparr>ID = 0, depth = 0, rendered = False\<rparr>]
   \<and> passesVisibility (frameEnv True 1 None) \<lparr>ID = 0, depth = 0, rendered = False\<rparr>
   \<and> ProcessVertices (frameEnv True 1 None)
         (ProcessVertices (frameEnv True 200 None) [\<lparr>ID = 0, depth = 0, rendered = True\<rparr>])
       = [\<lparr>ID = 0, depth = 1, rendered = False\<rparr>]"
  by (simp add: ProcessVertices_def visibilityPass_def sortTriangles_def partSortMode_def
      SliceStable_def processSkinnedTriangle_def skinnedVertexStep_def
      passesVisibility_def projectedVertex_def inRange_def
      applyTransformFunc_def frameEnv_def MaxFloat32_def Let_def)

section \<open>Properties of skinning\<close>





text \<open>
  C10. For a Model whose list of bone bindings is empty, \<open>ReassignBones\<close> returns the
  Model unchanged and does not panic, whatever the argument is (a bone, an armature root
  or nil). A panic of \<open>ReassignBones\<close> implies that the Model has a bone binding, and with
  a bone binding a bone as argument does panic.
\<close>

theorem ReassignBones_without_bones:
  "(length (bones model) = 0 \<longrightarrow> ReassignBones model armatureRoot = Inr model)
   \<and> (ReassignBones model armatureRoot = Inl Panic \<longrightarrow> length (bones model) \<noteq> 0)
   \<and> (length (bones model) \<noteq> 0 \<longrightarrow> isBone node \<longrightarrow>
        ReassignBones model (Some node) = Inl Panic)"
  by (simp add: ReassignBones_def)

theorem ReassignBones_without_bones_witness:
  "length (bones unskinnedModel) = 0
   \<and> isBone boneA
   \<and> ReassignBones unskinnedModel (Some boneA) = Inr unskinnedModel
   \<and> length (bones skinnedModel) \<noteq> 0
   \<and> ReassignBones skinnedModel (Some boneA) = Inl Panic"
proof -
  have h: "length (bones unskinnedModel) = 0" "isBone boneA" "length (bones skinnedModel) \<noteq> 0"
    by (simp_all add: unskinnedModel_def skinnedModel_def boneA_def)
  show ?thesis
    using h ReassignBones_without_bones [of unskinnedModel "Some boneA" boneA]
      ReassignBones_without_bones [of skinnedModel "Some boneA" boneA]
    by blast
qed

section \<open>Properties of dynamic batching, \<open>Merge\<close> and \<open>BakeAO\<close>\<close>

lemma batchOne_other:
  "m \<noteq> model \<Longrightarrow> m \<noteq> other \<Longrightarrow> batchOne st model meshPart other m = st m"
  by (simp add: batchOne_def Let_def)

lemma batchOne_mesh: "ModelMesh (batchOne st model meshPart other m) = ModelMesh (st m)"
  by (simp add: batchOne_def Let_def)

lemma batchOne_models:
  "model \<noteq> other \<Longrightarrow>
   DynamicBatchModels (batchOne st model meshPart other model)
   = appendToPart meshPart other (DynamicBatchModels (st model))"
  by (simp add: batchOne_def Let_def)

lemma DynamicBatchAdd_frame:
  "m \<noteq> model \<Longrightarrow> m \<notin> set ms \<Longrightarrow> fst (DynamicBatchAdd st model meshPart ms) m = st m"
  by (induction ms arbitrary: st) (auto simp: batchOne_other split: sum.splits option.splits)

lemma batched_appendToPart:
  "list_ex (\<lambda>entry. x \<in> set (snd entry)) (appendToPart meshPart other dbm)
   = (x = other \<or> list_ex (\<lambda>entry. x \<in> set (snd entry)) dbm)"
  by (induction meshPart other dbm rule: appendToPart.induct) auto

lemma batched_batchOne:
  "model \<noteq> other \<Longrightarrow>
   modelAlreadyDynamicallyBatched (batchOne st model meshPart other) model x
   = (x = other \<or> modelAlreadyDynamicallyBatched st model x)"
  by (simp add: modelAlreadyDynamicallyBatched_def batchOne_models batched_appendToPart)

lemma DynamicBatchAdd_batched_mono:
  "modelAlreadyDynamicallyBatched st model x \<Longrightarrow>
   modelAlreadyDynamicallyBatched (fst (DynamicBatchAdd st model meshPart ms)) model x"
proof (induction ms arbitrary: st)
  case Nil
  then show ?case by simp
next
  case (Cons other rest)
  show ?case
  proof (cases "model = other \<or> modelAlreadyDynamicallyBatched st model other")
    case True
    then show ?thesis using Cons by simp
  next
    case False
    then have ne: "model \<noteq> other" by simp
    have step: "modelAlreadyDynamicallyBatched (batchOne st model meshPart other) model x"
      using Cons.prems by (simp add: batched_batchOne [OF ne])
    show ?thesis
      using False Cons.prems Cons.IH [OF step]
      by (simp split: sum.splits option.splits)
  qed
qed

lemma DynamicBatchAdd_ok_batched:
  "snd (DynamicBatchAdd st model meshPart ms) = None \<Longrightarrow> m \<in> set ms \<Longrightarrow> m \<noteq> model \<Longrightarrow>
   modelAlreadyDynamicallyBatched (fst (DynamicBatchAdd st model meshPart ms)) model m"
proof (induction ms arbitrary: st)
  case Nil
  then show ?case by simp
next
  case (Cons other rest)
  show ?case
  proof (cases "model = other \<or> modelAlreadyDynamicallyBatched st model other")
    case True
    then show ?thesis
      using Cons.prems Cons.IH [of st] DynamicBatchAdd_batched_mono [of st model m meshPart rest]
      by auto
  next
    case False
    then have ne: "model \<noteq> other" by simp
    obtain triCount mesh where c: "DynamicBatchTriangleCount st model = Inr triCount"
      and me: "ModelMesh (st other) = Some mesh"
      and le: "\<not> triCount + TrianglesLen mesh > maxTriangleCount"
      using False Cons.prems(1) by (auto split: sum.splits option.splits if_splits)
    have eq: "DynamicBatchAdd st model meshPart (other # rest)
              = DynamicBatchAdd (batchOne st model meshPart other) model meshPart rest"
      using False c me le by simp
    show ?thesis
    proof (cases "m = other")
      case True
      have "modelAlreadyDynamicallyBatched (batchOne st model meshPart other) model m"
        using True by (simp add: batched_batchOne [OF ne])
      then show ?thesis
        unfolding eq by (rule DynamicBatchAdd_batched_mono)
    next
      case False
      then have "m \<in> set rest" using Cons.prems(2) by simp
      then show ?thesis
        unfolding eq using Cons.prems(1,3) Cons.IH eq by simp
    qed
  qed
qed

lemma DynamicBatchAdd_error_split:
  "snd (DynamicBatchAdd st model meshPart ms) = Some TooManyTriangles \<Longrightarrow>
   \<exists>pre other rest.
     ms = pre @ other # rest
     \<and> DynamicBatchAdd st model meshPart pre = (fst (DynamicBatchAdd st model meshPart ms), None)
     \<and> other \<noteq> model
     \<and> \<not> modelAlreadyDynamicallyBatched (fst (DynamicBatchAdd st model meshPart ms)) model other
     \<and> overBudget (fst (DynamicBatchAdd st model meshPart ms)) model other"
proof (induction ms arbitrary: st)
  case Nil
  then show ?case by simp
next
  case (Cons x xs)
  show ?case
  proof (cases "model = x \<or> modelAlreadyDynamicallyBatched st model x")
    case True
    then have eq: "DynamicBatchAdd st model meshPart (x # xs) = DynamicBatchAdd st model meshPart xs"
      by simp
    from Cons.prems eq have "snd (DynamicBatchAdd st model meshPart xs) = Some TooManyTriangles"
      by simp
    from Cons.IH [OF this] obtain pre other rest where
      sp: "xs = pre @ other # rest"
      and pr: "DynamicBatchAdd st model meshPart pre = (fst (DynamicBatchAdd st model meshPart xs), None)"
      and rest: "other \<noteq> model"
         "\<not> modelAlreadyDynamicallyBatched (fst (DynamicBatchAdd st model meshPart xs)) model other"
         "overBudget (fst (DynamicBatchAdd st model meshPart xs)) model other"
      by blast
    have "DynamicBatchAdd st model meshPart (x # pre) = DynamicBatchAdd st model meshPart pre"
      using True by simp
    with sp pr rest eq show ?thesis
      by (intro exI [of _ "x # pre"] exI [of _ other] exI [of _ rest]) simp
  next
    case False
    show ?thesis
    proof (cases "overBudget st model x")
      case True
      then have "DynamicBatchAdd st model meshPart (x # xs) = (st, Some TooManyTriangles)"
        using False by (auto simp: overBudget_def split: sum.splits option.splits)
      with True False show ?thesis
        by (intro exI [of _ "[]"] exI [of _ x] exI [of _ xs]) auto
    next
      case nb: False
      obtain triCount mesh where c: "DynamicBatchTriangleCount st model = Inr triCount"
        and me: "ModelMesh (st x) = Some mesh"
        and le: "\<not> triCount + TrianglesLen mesh > maxTriangleCount"
        using False Cons.prems nb
        by (auto simp: overBudget_def split: sum.splits option.splits if_splits)
      have eq: "DynamicBatchAdd st model meshPart (x # xs)
                = DynamicBatchAdd (batchOne st model meshPart x) model meshPart xs"
        using False c me le by simp
      from Cons.prems eq
      have "snd (DynamicBatchAdd (batchOne st model meshPart x) model meshPart xs)
            = Some TooManyTriangles" by simp
      from Cons.IH [OF this] obtain pre other rest where
        sp: "xs = pre @ other # rest"
        and pr: "DynamicBatchAdd (batchOne st model meshPart x) model meshPart pre
                 = (fst (DynamicBatchAdd (batchOne st model meshPart x) model meshPart xs), None)"
        and rest: "other \<noteq> model"
          "\<not> modelAlreadyDynamicallyBatched
               (fst (DynamicBatchAdd (batchOne st model meshPart x) model meshPart xs)) model other"
          "overBudget (fst (DynamicBatchAdd (batchOne st model meshPart x) model meshPart xs))
             model other"
        by blast
      have "DynamicBatchAdd st model meshPart (x # pre)
            = DynamicBatchAdd (batchOne st model meshPart x) model meshPart pre"
        using False c me le by simp
      with sp pr rest eq show ?thesis
        by (intro exI [of _ "x # pre"] exI [of _ other] exI [of _ rest]) simp
    qed
  qed
qed

lemma countTriangles_sum:
  "countTriangles st xs c =
     (if \<forall>x\<in>set xs. ModelMesh (st x) \<noteq> None
      then Inr (c + sum_list (map (trianglesOf st) xs)) else Inl Panic)"
  by (induction xs arbitrary: c) (auto simp: trianglesOf_def split: option.splits)

lemma mset_appendToPart:
  "mset (concat (map snd (appendToPart meshPart other dbm)))
   = add_mset other (mset (concat (map snd dbm)))"
  by (induction meshPart other dbm rule: appendToPart.induct) auto

lemma trianglesOf_batchOne: "trianglesOf (batchOne st model meshPart other) = trianglesOf st"
  by (rule ext) (simp add: trianglesOf_def batchOne_mesh)

lemma count_batchOne:
  assumes ne: "model \<noteq> other"
    and c: "DynamicBatchTriangleCount st model = Inr triCount"
    and me: "ModelMesh (st other) = Some mesh"
  shows "DynamicBatchTriangleCount (batchOne st model meshPart other) model
         = Inr (triCount + TrianglesLen mesh)"
proof -
  let ?old = "concat (map snd (DynamicBatchModels (st model)))"
  let ?new = "concat (map snd (appendToPart meshPart other (DynamicBatchModels (st model))))"
  have ms: "mset ?new = add_mset other (mset ?old)"
    by (rule mset_appendToPart)
  have all: "\<forall>x\<in>set ?old. ModelMesh (st x) \<noteq> None"
    and cnt: "triCount = sum_list (map (trianglesOf st) ?old)"
    using c by (auto simp: DynamicBatchTriangleCount_def countTriangles_sum split: if_splits)
  have "set ?new = insert other (set ?old)"
    using ms by (metis set_mset_add_mset_insert set_mset_mset)
  then have all': "\<forall>x\<in>set ?new. ModelMesh (batchOne st model meshPart other x) \<noteq> None"
    using all me by (auto simp: batchOne_mesh)
  have "sum_list (map (trianglesOf st) ?new) = sum_mset (image_mset (trianglesOf st) (mset ?new))"
    by (metis mset_map sum_mset_sum_list)
  also have "\<dots> = trianglesOf st other + sum_mset (image_mset (trianglesOf st) (mset ?old))"
    by (simp add: ms)
  also have "\<dots> = trianglesOf st other + sum_list (map (trianglesOf st) ?old)"
    by (metis mset_map sum_mset_sum_list)
  finally have s: "sum_list (map (trianglesOf st) ?new) = TrianglesLen mesh + triCount"
    using me cnt by (simp add: trianglesOf_def)
  show ?thesis
    using all' s
    by (simp add: DynamicBatchTriangleCount_def countTriangles_sum batchOne_models [OF ne]
        trianglesOf_batchOne)
qed

text \<open>
  The claim C5 as stated fails when several Models are passed in one call: Models 1 and
  2 have 12000 triangles each, the budget is 21845. The call returns the error for Model
  2, and by then Model 1 has been added to the owner's batch and has the owner set.
\<close>

theorem DynamicBatchAdd_partial_counterexample:
  "snd (DynamicBatchAdd batchStore 0 7 [1, 2]) = Some TooManyTriangles
   \<and> DynamicBatchModels (batchStore 0) = []
   \<and> DynamicBatchModels (fst (DynamicBatchAdd batchStore 0 7 [1, 2]) 0) = [(7, [1])]
   \<and> DynamicBatchOwner (batchStore 1) = None
   \<and> DynamicBatchOwner (fst (DynamicBatchAdd batchStore 0 7 [1, 2]) 1) = Some 0"
  by (simp add: batchStore_def batchOne_def modelAlreadyDynamicallyBatched_def
      DynamicBatchTriangleCount_def maxTriangleCount_def Let_def)

subsection \<open>What a call adds\<close>

text \<open>
  The Models that a call has to add follow the loop: a Model that is skipped drops out,
  a Model that is added heads the list, and what remains is judged in the store after
  the step.
\<close>

lemma set_firstOccurrences: "set (firstOccurrences xs) = set xs"
  by (induction xs rule: firstOccurrences.induct) auto

lemma distinct_firstOccurrences: "distinct (firstOccurrences xs)"
  by (induction xs rule: firstOccurrences.induct) (auto simp: set_firstOccurrences)

lemma set_freshModels:
  "set (freshModels st model ms)
   = {m \<in> set ms. m \<noteq> model \<and> \<not> modelAlreadyDynamicallyBatched st model m}"
  by (auto simp: freshModels_def set_firstOccurrences)

lemma distinct_freshModels: "distinct (freshModels st model ms)"
  by (simp add: freshModels_def distinct_firstOccurrences)

lemma freshModels_skip:
  "model = x \<or> modelAlreadyDynamicallyBatched st model x \<Longrightarrow>
   freshModels st model (x # xs) = freshModels st model xs"
  by (auto simp: freshModels_def)

lemma freshModels_step:
  assumes "model \<noteq> x" and "\<not> modelAlreadyDynamicallyBatched st model x"
  shows "freshModels st model (x # xs)
         = x # freshModels (batchOne st model meshPart x) model xs"
proof -
  have "filter (\<lambda>y. y \<noteq> x)
          (filter (\<lambda>m. m \<noteq> model \<and> \<not> modelAlreadyDynamicallyBatched st model m) xs)
        = filter (\<lambda>m. m \<noteq> model
                    \<and> \<not> modelAlreadyDynamicallyBatched (batchOne st model meshPart x) model m) xs"
    using assms(1) by (auto simp: batched_batchOne intro!: filter_cong)
  then show ?thesis
    using assms by (simp add: freshModels_def)
qed

lemma DynamicBatchAdd_append:
  "DynamicBatchAdd st model meshPart pre = (st', None) \<Longrightarrow>
   DynamicBatchAdd st model meshPart (pre @ rest) = DynamicBatchAdd st' model meshPart rest"
  by (induction pre arbitrary: st) (auto split: sum.splits option.splits if_splits)

lemma DynamicBatchAdd_fold:
  "DynamicBatchAdd st model meshPart ms = (st', None) \<Longrightarrow>
   st' = fold (\<lambda>other s. batchOne s model meshPart other) (freshModels st model ms) st"
proof (induction ms arbitrary: st)
  case Nil
  then show ?case by (simp add: freshModels_def)
next
  case (Cons x xs)
  show ?case
  proof (cases "model = x \<or> modelAlreadyDynamicallyBatched st model x")
    case True
    then show ?thesis
      using Cons.prems Cons.IH [of st] by (simp add: freshModels_skip)
  next
    case False
    then have ne: "model \<noteq> x" and nb: "\<not> modelAlreadyDynamicallyBatched st model x" by simp_all
    have "DynamicBatchAdd (batchOne st model meshPart x) model meshPart xs = (st', None)"
      using False Cons.prems by (auto split: sum.splits option.splits if_splits)
    from Cons.IH [OF this] show ?thesis
      by (simp add: freshModels_step [OF ne nb, of xs meshPart])
  qed
qed

lemma map_of_appendToPart:
  "map_of (appendToPart meshPart other dbm)
   = (map_of dbm)(meshPart \<mapsto>
        (case map_of dbm meshPart of None \<Rightarrow> [] | Some slice \<Rightarrow> slice) @ [other])"
  by (induction meshPart other dbm rule: appendToPart.induct) (auto simp: fun_eq_iff)

lemma addedToBatch_batchOne:
  "model \<noteq> other \<Longrightarrow> addedToBatch st model meshPart [other] (batchOne st model meshPart other)"
  by (simp add: addedToBatch_def batchOne_def Let_def map_of_appendToPart partSlice_def)

lemma addedToBatch_Cons:
  assumes ne: "model \<noteq> x" and nx: "x \<notin> set xs" and nm: "model \<notin> set xs"
    and rest: "addedToBatch (batchOne st model meshPart x) model meshPart xs st'"
  shows "addedToBatch st model meshPart (x # xs) st'"
proof -
  let ?s = "batchOne st model meshPart x"
  have one: "addedToBatch st model meshPart [x] ?s"
    by (rule addedToBatch_batchOne [OF ne])
  have sl: "partSlice ?s model meshPart = partSlice st model meshPart @ [x]"
    using one by (simp add: addedToBatch_def partSlice_def)
  have mp: "map_of (DynamicBatchModels (?s model))
            = (map_of (DynamicBatchModels (st model)))(meshPart \<mapsto> partSlice st model meshPart @ [x])"
    using one by (simp add: addedToBatch_def)
  have c1: "map_of (DynamicBatchModels (st' model))
        = (map_of (DynamicBatchModels (st model)))(meshPart \<mapsto> partSlice st model meshPart @ x # xs)"
  proof (cases "xs = []")
    case True
    then have "st' = ?s" using rest by (simp add: addedToBatch_def)
    with mp True show ?thesis by simp
  next
    case False
    then have "map_of (DynamicBatchModels (st' model))
               = (map_of (DynamicBatchModels (?s model)))(meshPart \<mapsto> partSlice ?s model meshPart @ xs)"
      using rest by (simp add: addedToBatch_def)
    then show ?thesis by (simp add: mp sl)
  qed
  have c2: "ModelMesh (st' model) = ModelMesh (st model)"
    "DynamicBatchOwner (st' model) = DynamicBatchOwner (st model)"
    using rest one by (simp_all add: addedToBatch_def)
  have sx: "?s x = (st x)\<lparr>DynamicBatchOwner := Some model\<rparr>"
    using one by (simp add: addedToBatch_def)
  have so: "?s m = st m" if "m \<noteq> model" "m \<noteq> x" for m
    using that by (simp add: batchOne_other)
  have r1: "\<forall>m\<in>set xs. st' m = (?s m)\<lparr>DynamicBatchOwner := Some model\<rparr>"
    and r2: "\<forall>m. m \<noteq> model \<longrightarrow> m \<notin> set xs \<longrightarrow> st' m = ?s m"
    using rest by (simp_all add: addedToBatch_def)
  have c3: "st' x = (st x)\<lparr>DynamicBatchOwner := Some model\<rparr>"
    using r2 ne nx sx by auto
  have c4: "\<forall>m\<in>set xs. st' m = (st m)\<lparr>DynamicBatchOwner := Some model\<rparr>"
  proof
    fix m assume m: "m \<in> set xs"
    then have "m \<noteq> model" "m \<noteq> x" using nm nx by auto
    then show "st' m = (st m)\<lparr>DynamicBatchOwner := Some model\<rparr>"
      using r1 m so by simp
  qed
  have c5: "\<forall>m. m \<noteq> model \<longrightarrow> m \<notin> set (x # xs) \<longrightarrow> st' m = st m"
    using r2 so by simp
  show ?thesis
    unfolding addedToBatch_def using c1 c2 c3 c4 c5 by simp
qed

lemma addedToBatch_fold:
  "distinct added \<Longrightarrow> model \<notin> set added \<Longrightarrow>
   addedToBatch st model meshPart added
     (fold (\<lambda>other s. batchOne s model meshPart other) added st)"
proof (induction added arbitrary: st)
  case Nil
  then show ?case by (simp add: addedToBatch_def)
next
  case (Cons x xs)
  have "addedToBatch (batchOne st model meshPart x) model meshPart xs
          (fold (\<lambda>other s. batchOne s model meshPart other) xs (batchOne st model meshPart x))"
    using Cons.prems by (intro Cons.IH) simp_all
  then show ?case
    using Cons.prems by (simp add: addedToBatch_Cons)
qed

lemma DynamicBatchAdd_added:
  assumes "DynamicBatchAdd st model meshPart ms = (st', None)"
  shows "addedToBatch st model meshPart (freshModels st model ms) st'"
proof -
  have "model \<notin> set (freshModels st model ms)"
    by (simp add: set_freshModels)
  then show ?thesis
    using DynamicBatchAdd_fold [OF assms] addedToBatch_fold [OF distinct_freshModels]
    by simp
qed

lemma DynamicBatchAdd_decides:
  "DynamicBatchTriangleCount st model = Inr triCount \<Longrightarrow>
   \<forall>m\<in>set ms. ModelMesh (st m) \<noteq> None \<Longrightarrow>
   snd (DynamicBatchAdd st model meshPart ms)
   = budgetOutcome st triCount (freshModels st model ms)"
proof (induction ms arbitrary: st triCount)
  case Nil
  then show ?case by (simp add: budgetOutcome_def freshModels_def)
next
  case (Cons x xs)
  show ?case
  proof (cases "model = x \<or> modelAlreadyDynamicallyBatched st model x")
    case True
    have "snd (DynamicBatchAdd st model meshPart xs)
          = budgetOutcome st triCount (freshModels st model xs)"
      using Cons.prems by (intro Cons.IH) auto
    with True show ?thesis by (simp add: freshModels_skip)
  next
    case False
    then have ne: "model \<noteq> x" and nb: "\<not> modelAlreadyDynamicallyBatched st model x" by simp_all
    obtain mesh where me: "ModelMesh (st x) = Some mesh"
      using Cons.prems(2) by auto
    have tx: "trianglesOf st x = TrianglesLen mesh"
      using me by (simp add: trianglesOf_def)
    have fr: "freshModels st model (x # xs) = x # freshModels (batchOne st model meshPart x) model xs"
      by (rule freshModels_step [OF ne nb])
    show ?thesis
    proof (cases "triCount + TrianglesLen mesh > maxTriangleCount")
      case True
      then have "snd (DynamicBatchAdd st model meshPart (x # xs)) = Some TooManyTriangles"
        using False Cons.prems(1) me by simp
      moreover have "budgetOutcome st triCount (freshModels st model (x # xs)) = Some TooManyTriangles"
        using True tx by (simp add: fr budgetOutcome_def)
      ultimately show ?thesis by simp
    next
      case le: False
      have eq: "DynamicBatchAdd st model meshPart (x # xs)
                = DynamicBatchAdd (batchOne st model meshPart x) model meshPart xs"
        using False Cons.prems(1) me le by simp
      have "snd (DynamicBatchAdd (batchOne st model meshPart x) model meshPart xs)
            = budgetOutcome (batchOne st model meshPart x) (triCount + TrianglesLen mesh)
                (freshModels (batchOne st model meshPart x) model xs)"
      proof (rule Cons.IH)
        show "DynamicBatchTriangleCount (batchOne st model meshPart x) model
              = Inr (triCount + TrianglesLen mesh)"
          by (rule count_batchOne [OF ne Cons.prems(1) me])
        show "\<forall>m\<in>set xs. ModelMesh (batchOne st model meshPart x m) \<noteq> None"
          using Cons.prems(2) by (simp add: batchOne_mesh)
      qed
      moreover have "budgetOutcome (batchOne st model meshPart x) (triCount + TrianglesLen mesh)
                       (freshModels (batchOne st model meshPart x) model xs)
                     = budgetOutcome st triCount
                         (x # freshModels (batchOne st model meshPart x) model xs)"
        using tx le by (simp add: budgetOutcome_def trianglesOf_batchOne add.assoc)
      ultimately show ?thesis
        by (simp only: eq fr)
    qed
  qed
qed

subsection \<open>When a call fails\<close>

lemma batched_iff:
  "modelAlreadyDynamicallyBatched st model m = (m \<in> set (batchedModels st model))"
  by (auto simp: modelAlreadyDynamicallyBatched_def batchedModels_def list_ex_iff)

lemma DynamicBatchAdd_error_iff:
  "DynamicBatchAdd st model meshPart ms = (st', Some TooManyTriangles)
   = (\<exists>pre failing post.
        ms = pre @ failing # post
        \<and> DynamicBatchAdd st model meshPart pre = (st', None)
        \<and> failing \<noteq> model
        \<and> \<not> modelAlreadyDynamicallyBatched st' model failing
        \<and> overBudget st' model failing)"
proof
  assume e: "DynamicBatchAdd st model meshPart ms = (st', Some TooManyTriangles)"
  then have "snd (DynamicBatchAdd st model meshPart ms) = Some TooManyTriangles" by simp
  from DynamicBatchAdd_error_split [OF this] e
  show "\<exists>pre failing post.
        ms = pre @ failing # post
        \<and> DynamicBatchAdd st model meshPart pre = (st', None)
        \<and> failing \<noteq> model
        \<and> \<not> modelAlreadyDynamicallyBatched st' model failing
        \<and> overBudget st' model failing"
    by simp
next
  assume "\<exists>pre failing post.
        ms = pre @ failing # post
        \<and> DynamicBatchAdd st model meshPart pre = (st', None)
        \<and> failing \<noteq> model
        \<and> \<not> modelAlreadyDynamicallyBatched st' model failing
        \<and> overBudget st' model failing"
  then obtain pre failing post where sp: "ms = pre @ failing # post"
    and pr: "DynamicBatchAdd st model meshPart pre = (st', None)"
    and ne: "failing \<noteq> model"
    and nb: "\<not> modelAlreadyDynamicallyBatched st' model failing"
    and ob: "overBudget st' model failing"
    by blast
  have "DynamicBatchAdd st' model meshPart (failing # post) = (st', Some TooManyTriangles)"
    using ne nb ob by (auto simp: overBudget_def split: sum.splits option.splits)
  then show "DynamicBatchAdd st model meshPart ms = (st', Some TooManyTriangles)"
    using DynamicBatchAdd_append [OF pr, of "failing # post"] sp by simp
qed

lemma DynamicBatchAdd_first_fails:
  "freshModels st model ms = failing # others \<Longrightarrow> overBudget st model failing \<Longrightarrow>
   DynamicBatchAdd st model meshPart ms = (st, Some TooManyTriangles)"
proof (induction ms)
  case Nil
  then show ?case by (simp add: freshModels_def)
next
  case (Cons x xs)
  show ?case
  proof (cases "model = x \<or> modelAlreadyDynamicallyBatched st model x")
    case True
    then show ?thesis
      using Cons by (simp add: freshModels_skip)
  next
    case False
    then have ne: "model \<noteq> x" and nb: "\<not> modelAlreadyDynamicallyBatched st model x" by simp_all
    have "x = failing"
      using Cons.prems(1) freshModels_step [OF ne nb, of xs meshPart] by simp
    then show ?thesis
      using False Cons.prems(2) by (auto simp: overBudget_def split: sum.splits option.splits)
  qed
qed

subsection \<open>\<open>DynamicBatchRemove\<close>\<close>

text \<open>
  The first loop removes the first occurrence per slice; on slices without repetition
  that is every occurrence.
\<close>

lemma removeBatched_models:
  "DynamicBatchModels (removeBatched model m st model)
   = map (\<lambda>entry. (fst entry, remove1 m (snd entry))) (DynamicBatchModels (st model))"
  by (simp add: removeBatched_def Let_def)

lemma fold_removeBatched_models:
  "DynamicBatchModels (fold (removeBatched model) rs st model)
   = map (\<lambda>entry. (fst entry, fold remove1 rs (snd entry))) (DynamicBatchModels (st model))"
  by (induction rs arbitrary: st) (simp_all add: removeBatched_models comp_def)

lemma fold_remove1_distinct:
  "distinct xs \<Longrightarrow> fold remove1 rs xs = filter (\<lambda>x. x \<notin> set rs) xs"
proof (induction rs arbitrary: xs)
  case Nil
  then show ?case by simp
next
  case (Cons r rs)
  have "remove1 r xs = filter (\<lambda>x. x \<noteq> r) xs"
    using Cons.prems by (simp add: distinct_remove1_removeAll removeAll_filter_not_eq eq_commute)
  moreover have "distinct (remove1 r xs)" using Cons.prems by simp
  ultimately show ?case
    using Cons.IH [of "remove1 r xs"] by (auto intro!: filter_cong)
qed

lemma DynamicBatchRemove_models:
  "DynamicBatchModels (DynamicBatchRemove st model rs model)
   = filter (\<lambda>entry. snd entry \<noteq> [])
       (map (\<lambda>entry. (fst entry, fold remove1 rs (snd entry))) (DynamicBatchModels (st model)))"
  by (simp add: DynamicBatchRemove_def Let_def fold_removeBatched_models)

lemma distinct_concat_member: "distinct (concat xss) \<Longrightarrow> ys \<in> set xss \<Longrightarrow> distinct ys"
  by (induction xss) auto

lemma concat_filter_nonempty:
  "concat (map snd (filter (\<lambda>entry. snd entry \<noteq> []) es)) = concat (map snd es)"
  by (induction es) auto

lemma DynamicBatchRemove_batchedModels:
  assumes "distinct (batchedModels st model)"
  shows "batchedModels (DynamicBatchRemove st model rs) model
         = filter (\<lambda>m. m \<notin> set rs) (batchedModels st model)"
proof -
  let ?es = "DynamicBatchModels (st model)"
  have d: "\<forall>e\<in>set ?es. distinct (snd e)"
    using assms distinct_concat_member [of "map snd ?es"] by (auto simp: batchedModels_def)
  have m: "map (\<lambda>entry. fold remove1 rs (snd entry)) ?es
        = map (\<lambda>entry. filter (\<lambda>m. m \<notin> set rs) (snd entry)) ?es"
    using d by (intro map_cong) (simp_all add: fold_remove1_distinct)
  have "concat (map (\<lambda>entry. filter (\<lambda>m. m \<notin> set rs) (snd entry)) ?es)
             = filter (\<lambda>m. m \<notin> set rs) (concat (map snd ?es))"
    by (simp add: filter_concat comp_def)
  then have "concat (map (\<lambda>entry. fold remove1 rs (snd entry)) ?es)
             = filter (\<lambda>m. m \<notin> set rs) (concat (map snd ?es))"
    by (simp only: m)
  then show ?thesis
    by (simp add: batchedModels_def DynamicBatchRemove_models concat_filter_nonempty comp_def)
qed

lemma map_of_pruned:
  "distinct (map fst es) \<Longrightarrow>
   map_of (filter (\<lambda>entry. snd entry \<noteq> []) (map (\<lambda>entry. (fst entry, f (snd entry))) es)) k
   = (case map_of es k of
        None \<Rightarrow> None
      | Some slice \<Rightarrow> if f slice = [] then None else Some (f slice))"
proof (induction es)
  case Nil
  then show ?case by simp
next
  case (Cons e es)
  have "map_of es (fst e) = None"
    using Cons.prems by (simp add: map_of_eq_None_iff)
  then show ?case
    using Cons by (cases e) (auto split: option.splits)
qed

lemma DynamicBatchRemove_map:
  assumes "wellBatched st model"
  shows "map_of (DynamicBatchModels (DynamicBatchRemove st model rs model)) k
         = (case map_of (DynamicBatchModels (st model)) k of
              None \<Rightarrow> None
            | Some slice \<Rightarrow>
                if filter (\<lambda>m. m \<notin> set rs) slice = [] then None
                else Some (filter (\<lambda>m. m \<notin> set rs) slice))"
proof -
  let ?es = "DynamicBatchModels (st model)"
  have dk: "distinct (map fst ?es)" and dc: "distinct (concat (map snd ?es))"
    using assms by (simp_all add: wellBatched_def batchedModels_def)
  have d: "\<forall>e\<in>set ?es. distinct (snd e)"
    using dc distinct_concat_member [of "map snd ?es"] by auto
  have m: "map (\<lambda>entry. (fst entry, fold remove1 rs (snd entry))) ?es
        = map (\<lambda>entry. (fst entry, filter (\<lambda>m. m \<notin> set rs) (snd entry))) ?es"
    using d by (auto simp: fold_remove1_distinct)
  show ?thesis
    unfolding DynamicBatchRemove_models m by (rule map_of_pruned [OF dk])
qed

lemma removeBatched_other:
  "m \<noteq> model \<Longrightarrow>
   removeBatched model r st m
   = (if m = r \<and> modelAlreadyDynamicallyBatched st model r
      then (st m)\<lparr>DynamicBatchOwner := None\<rparr> else st m)"
  by (simp add: removeBatched_def Let_def)

lemma batched_removeBatched_other:
  "m \<noteq> r \<Longrightarrow>
   modelAlreadyDynamicallyBatched (removeBatched model r st) model m
   = modelAlreadyDynamicallyBatched st model m"
  by (auto simp: modelAlreadyDynamicallyBatched_def removeBatched_models list_ex_iff)

lemma batched_removeBatched_same:
  "modelAlreadyDynamicallyBatched (removeBatched model r st) model r \<Longrightarrow>
   modelAlreadyDynamicallyBatched st model r"
proof -
  assume "modelAlreadyDynamicallyBatched (removeBatched model r st) model r"
  then obtain entry where e: "entry \<in> set (DynamicBatchModels (st model))"
    and r: "r \<in> set (remove1 r (snd entry))"
    by (auto simp: modelAlreadyDynamicallyBatched_def removeBatched_models list_ex_iff)
  have "r \<in> set (snd entry)"
    using r set_remove1_subset [of r "snd entry"] by blast
  with e show ?thesis
    by (auto simp: modelAlreadyDynamicallyBatched_def list_ex_iff)
qed

lemma fold_removeBatched_other:
  "m \<noteq> model \<Longrightarrow>
   fold (removeBatched model) rs st m
   = (if m \<in> set rs \<and> modelAlreadyDynamicallyBatched st model m
      then (st m)\<lparr>DynamicBatchOwner := None\<rparr> else st m)"
proof (induction rs arbitrary: st)
  case Nil
  then show ?case by simp
next
  case (Cons r rs)
  let ?s = "removeBatched model r st"
  have ih: "fold (removeBatched model) rs ?s m
            = (if m \<in> set rs \<and> modelAlreadyDynamicallyBatched ?s model m
               then (?s m)\<lparr>DynamicBatchOwner := None\<rparr> else ?s m)"
    by (rule Cons.IH [OF Cons.prems])
  show ?case
  proof (cases "m = r")
    case True
    show ?thesis
      using ih Cons.prems True batched_removeBatched_same [of model r st]
      by (auto simp: removeBatched_other)
  next
    case False
    then show ?thesis
      using ih Cons.prems
      by (simp add: removeBatched_other batched_removeBatched_other)
  qed
qed

lemma DynamicBatchRemove_other:
  "m \<noteq> model \<Longrightarrow>
   DynamicBatchRemove st model rs m
   = (if m \<in> set rs \<and> modelAlreadyDynamicallyBatched st model m
      then (st m)\<lparr>DynamicBatchOwner := None\<rparr> else st m)"
  by (simp add: DynamicBatchRemove_def Let_def fold_removeBatched_other)

lemma removeBatched_mesh: "ModelMesh (removeBatched model r st m) = ModelMesh (st m)"
  by (simp add: removeBatched_def Let_def)

lemma fold_removeBatched_mesh: "ModelMesh (fold (removeBatched model) rs st m) = ModelMesh (st m)"
  by (induction rs arbitrary: st) (simp_all add: removeBatched_mesh)

lemma DynamicBatchRemove_mesh: "ModelMesh (DynamicBatchRemove st model rs m) = ModelMesh (st m)"
  by (simp add: DynamicBatchRemove_def Let_def fold_removeBatched_mesh)

lemma trianglesOf_DynamicBatchRemove:
  "trianglesOf (DynamicBatchRemove st model rs) = trianglesOf st"
  by (rule ext) (simp add: trianglesOf_def DynamicBatchRemove_mesh)

lemma DynamicBatchRemove_wellBatched:
  assumes "wellBatched st model"
  shows "wellBatched (DynamicBatchRemove st model rs) model"
proof -
  have "distinct (map fst (DynamicBatchModels (DynamicBatchRemove st model rs model)))"
    using assms
    by (simp add: wellBatched_def DynamicBatchRemove_models distinct_map_filter comp_def)
  moreover have "distinct (batchedModels (DynamicBatchRemove st model rs) model)"
    using assms by (simp add: wellBatched_def DynamicBatchRemove_batchedModels)
  ultimately show ?thesis by (simp add: wellBatched_def)
qed

lemma DynamicBatchRemove_count:
  assumes "distinct (batchedModels st model)"
    and "DynamicBatchTriangleCount st model = Inr triCount"
  shows "DynamicBatchTriangleCount (DynamicBatchRemove st model rs) model
         = Inr (sum_list (map (trianglesOf st)
                  (filter (\<lambda>m. m \<notin> set rs) (batchedModels st model))))"
proof -
  have "\<forall>x\<in>set (batchedModels st model). ModelMesh (st x) \<noteq> None"
    using assms(2)
    by (auto simp: DynamicBatchTriangleCount_def batchedModels_def countTriangles_sum
        split: if_splits)
  then have all: "\<forall>x\<in>set (filter (\<lambda>m. m \<notin> set rs) (batchedModels st model)).
                    ModelMesh (DynamicBatchRemove st model rs x) \<noteq> None"
    by (simp add: DynamicBatchRemove_mesh)
  have "DynamicBatchTriangleCount (DynamicBatchRemove st model rs) model
        = countTriangles (DynamicBatchRemove st model rs)
            (filter (\<lambda>m. m \<notin> set rs) (batchedModels st model)) 0"
    using DynamicBatchRemove_batchedModels [OF assms(1), of rs]
    by (simp add: DynamicBatchTriangleCount_def batchedModels_def)
  also have "\<dots> = Inr (sum_list (map (trianglesOf st)
                  (filter (\<lambda>m. m \<notin> set rs) (batchedModels st model))))"
    using all by (simp only: countTriangles_sum trianglesOf_DynamicBatchRemove) simp
  finally show ?thesis .
qed

lemma freshModels_after_remove:
  assumes "distinct (batchedModels st model)"
  shows "freshModels (DynamicBatchRemove st model rs) model rs
         = firstOccurrences (filter (\<lambda>m. m \<noteq> model) rs)"
proof -
  have "\<forall>m\<in>set rs. \<not> modelAlreadyDynamicallyBatched (DynamicBatchRemove st model rs) model m"
    by (simp add: batched_iff DynamicBatchRemove_batchedModels [OF assms])
  then have "filter (\<lambda>m. m \<noteq> model
               \<and> \<not> modelAlreadyDynamicallyBatched (DynamicBatchRemove st model rs) model m) rs
             = filter (\<lambda>m. m \<noteq> model) rs"
    by (auto intro!: filter_cong)
  then show ?thesis by (simp add: freshModels_def)
qed

lemma batchOne_wellBatched:
  assumes "wellBatched st model" and "model \<noteq> other"
    and "\<not> modelAlreadyDynamicallyBatched st model other"
  shows "wellBatched (batchOne st model meshPart other) model"
proof -
  have k: "map fst (appendToPart meshPart other dbm)
           = (if meshPart \<in> set (map fst dbm) then map fst dbm else map fst dbm @ [meshPart])" for dbm
    by (induction meshPart other dbm rule: appendToPart.induct) auto
  have "distinct (map fst (appendToPart meshPart other (DynamicBatchModels (st model))))"
    using assms(1) by (simp add: k wellBatched_def del: set_map)
  moreover have "distinct (concat (map snd (appendToPart meshPart other (DynamicBatchModels (st model)))))"
  proof -
    have "mset (concat (map snd (appendToPart meshPart other (DynamicBatchModels (st model)))))
          = add_mset other (mset (batchedModels st model))"
      by (simp add: mset_appendToPart batchedModels_def)
    moreover have "distinct (batchedModels st model)" "other \<notin> set (batchedModels st model)"
      using assms(1,3) by (simp_all add: wellBatched_def batched_iff)
    ultimately show ?thesis
      by (metis distinct.simps(2) mset_eq_imp_distinct_iff mset.simps(2))
  qed
  ultimately show ?thesis
    by (simp add: wellBatched_def batchedModels_def batchOne_models [OF assms(2)])
qed

lemma DynamicBatchAdd_wellBatched:
  "wellBatched st model \<Longrightarrow> wellBatched (fst (DynamicBatchAdd st model meshPart ms)) model"
proof (induction ms arbitrary: st)
  case Nil
  then show ?case by simp
next
  case (Cons x xs)
  show ?case
  proof (cases "model = x \<or> modelAlreadyDynamicallyBatched st model x")
    case True
    then show ?thesis using Cons by simp
  next
    case False
    then have "wellBatched (batchOne st model meshPart x) model"
      using Cons.prems by (intro batchOne_wellBatched) simp_all
    from Cons.IH [OF this] show ?thesis
      using False Cons.prems by (auto split: sum.splits option.splits)
  qed
qed

text \<open>
  C5, as amended. A call of \<open>DynamicBatchAdd\<close> on Models that all have a Mesh returns
  the budget error exactly when the Models it has to add (those neither the owner nor
  batched already, each counted once) do not fit into the maximum together with what is
  batched; in general it returns the error, with the store \<open>st'\<close>, exactly when the
  arguments split into Models \<open>pre\<close> that are added without error, giving \<open>st'\<close>, and
  a next Model \<open>failing\<close> that is over the budget of \<open>st'\<close>. The store returned with
  the error is the store after the Models before the failing one have been added: the
  slice of the mesh part is extended by them and each has the owner as its batch owner,
  while the failing Model and every Model not added before it are unchanged. When the
  first Model that the call has to add does not fit, the store is unchanged. A call
  without error has added every Model it had to add in this way, and a batch with one
  entry per mesh part and no Model twice stays such a batch. On such a batch
  \<open>DynamicBatchRemove\<close> cuts the Models out of every slice and prunes the slices left
  empty, sets the batch owner of each Model it removed to nil, leaves every other Model
  unchanged and lowers the triangle count by what it removed; adding the same Models
  again after it returns no error exactly when they fit with what is left.
\<close>

theorem DynamicBatchAdd_budget:
  "(DynamicBatchTriangleCount st model = Inr triCount \<longrightarrow>
      (\<forall>m\<in>set ms. ModelMesh (st m) \<noteq> None) \<longrightarrow>
      snd (DynamicBatchAdd st model meshPart ms)
      = budgetOutcome st triCount (freshModels st model ms))
   \<and> (DynamicBatchAdd st model meshPart ms = (st', Some TooManyTriangles)
      \<longleftrightarrow> (\<exists>pre failing post.
             ms = pre @ failing # post
             \<and> DynamicBatchAdd st model meshPart pre = (st', None)
             \<and> failing \<noteq> model
             \<and> \<not> modelAlreadyDynamicallyBatched st' model failing
             \<and> overBudget st' model failing))
   \<and> (DynamicBatchAdd st model meshPart ms = (st', None) \<longrightarrow>
        addedToBatch st model meshPart (freshModels st model ms) st')
   \<and> (DynamicBatchAdd st model meshPart ms = (st', Some TooManyTriangles) \<longrightarrow>
        (\<exists>pre failing post.
           ms = pre @ failing # post
           \<and> addedToBatch st model meshPart (freshModels st model pre) st'
           \<and> failing \<notin> set (freshModels st model pre)
           \<and> st' failing = st failing
           \<and> overBudget st' model failing))
   \<and> (freshModels st model ms = first # others \<longrightarrow> overBudget st model first \<longrightarrow>
        DynamicBatchAdd st model meshPart ms = (st, Some TooManyTriangles))
   \<and> (wellBatched st model \<longrightarrow>
        wellBatched (fst (DynamicBatchAdd st model meshPart ms)) model
        \<and> wellBatched (DynamicBatchRemove st model removed) model
        \<and> batchedModels (DynamicBatchRemove st model removed) model
            = filter (\<lambda>m. m \<notin> set removed) (batchedModels st model)
        \<and> (\<forall>k. map_of (DynamicBatchModels (DynamicBatchRemove st model removed model)) k
                 = (case map_of (DynamicBatchModels (st model)) k of
                      None \<Rightarrow> None
                    | Some slice \<Rightarrow>
                        if filter (\<lambda>m. m \<notin> set removed) slice = [] then None
                        else Some (filter (\<lambda>m. m \<notin> set removed) slice)))
        \<and> (\<forall>m. m \<noteq> model \<longrightarrow>
               DynamicBatchRemove st model removed m
               = (if m \<in> set removed \<and> modelAlreadyDynamicallyBatched st model m
                  then (st m)\<lparr>DynamicBatchOwner := None\<rparr> else st m))
        \<and> (DynamicBatchTriangleCount st model = Inr triCount \<longrightarrow>
              DynamicBatchTriangleCount (DynamicBatchRemove st model removed) model
              = Inr (sum_list (map (trianglesOf st)
                       (filter (\<lambda>m. m \<notin> set removed) (batchedModels st model)))))
        \<and> freshModels (DynamicBatchRemove st model removed) model removed
            = firstOccurrences (filter (\<lambda>m. m \<noteq> model) removed)
        \<and> (DynamicBatchTriangleCount (DynamicBatchRemove st model removed) model = Inr left \<longrightarrow>
              (\<forall>m\<in>set removed. ModelMesh (st m) \<noteq> None) \<longrightarrow>
              snd (DynamicBatchAdd (DynamicBatchRemove st model removed) model meshPart removed)
              = budgetOutcome st left (firstOccurrences (filter (\<lambda>m. m \<noteq> model) removed))))"
proof (intro conjI impI)
  assume "DynamicBatchTriangleCount st model = Inr triCount"
    and "\<forall>m\<in>set ms. ModelMesh (st m) \<noteq> None"
  then show "snd (DynamicBatchAdd st model meshPart ms)
             = budgetOutcome st triCount (freshModels st model ms)"
    by (rule DynamicBatchAdd_decides)
next
  show "DynamicBatchAdd st model meshPart ms = (st', Some TooManyTriangles)
      \<longleftrightarrow> (\<exists>pre failing post.
             ms = pre @ failing # post
             \<and> DynamicBatchAdd st model meshPart pre = (st', None)
             \<and> failing \<noteq> model
             \<and> \<not> modelAlreadyDynamicallyBatched st' model failing
             \<and> overBudget st' model failing)"
    by (rule DynamicBatchAdd_error_iff)
next
  assume "DynamicBatchAdd st model meshPart ms = (st', None)"
  then show "addedToBatch st model meshPart (freshModels st model ms) st'"
    by (rule DynamicBatchAdd_added)
next
  assume "DynamicBatchAdd st model meshPart ms = (st', Some TooManyTriangles)"
  then obtain pre failing post where sp: "ms = pre @ failing # post"
    and pr: "DynamicBatchAdd st model meshPart pre = (st', None)"
    and ne: "failing \<noteq> model"
    and nb: "\<not> modelAlreadyDynamicallyBatched st' model failing"
    and ob: "overBudget st' model failing"
    unfolding DynamicBatchAdd_error_iff by blast
  have ad: "addedToBatch st model meshPart (freshModels st model pre) st'"
    by (rule DynamicBatchAdd_added [OF pr])
  have nf: "failing \<notin> set (freshModels st model pre)"
  proof
    assume "failing \<in> set (freshModels st model pre)"
    then have "failing \<in> set pre" by (simp add: set_freshModels)
    then have "modelAlreadyDynamicallyBatched (fst (DynamicBatchAdd st model meshPart pre)) model failing"
      using pr ne by (intro DynamicBatchAdd_ok_batched) simp_all
    with nb pr show False by simp
  qed
  have "st' failing = st failing"
    using ad ne nf by (simp add: addedToBatch_def)
  with sp ad nf ob
  show "\<exists>pre failing post.
           ms = pre @ failing # post
           \<and> addedToBatch st model meshPart (freshModels st model pre) st'
           \<and> failing \<notin> set (freshModels st model pre)
           \<and> st' failing = st failing
           \<and> overBudget st' model failing"
    by blast
next
  assume "freshModels st model ms = first # others" and "overBudget st model first"
  then show "DynamicBatchAdd st model meshPart ms = (st, Some TooManyTriangles)"
    by (rule DynamicBatchAdd_first_fails)
next
  assume w: "wellBatched st model"
  then have d: "distinct (batchedModels st model)" by (simp add: wellBatched_def)
  let ?r = "DynamicBatchRemove st model removed"
  show "wellBatched (fst (DynamicBatchAdd st model meshPart ms)) model"
    by (rule DynamicBatchAdd_wellBatched [OF w])
  show "wellBatched ?r model"
    by (rule DynamicBatchRemove_wellBatched [OF w])
  show "batchedModels ?r model = filter (\<lambda>m. m \<notin> set removed) (batchedModels st model)"
    by (rule DynamicBatchRemove_batchedModels [OF d])
  show "\<forall>k. map_of (DynamicBatchModels (?r model)) k
                 = (case map_of (DynamicBatchModels (st model)) k of
                      None \<Rightarrow> None
                    | Some slice \<Rightarrow>
                        if filter (\<lambda>m. m \<notin> set removed) slice = [] then None
                        else Some (filter (\<lambda>m. m \<notin> set removed) slice))"
    using DynamicBatchRemove_map [OF w] by blast
  show "\<forall>m. m \<noteq> model \<longrightarrow>
               ?r m = (if m \<in> set removed \<and> modelAlreadyDynamicallyBatched st model m
                       then (st m)\<lparr>DynamicBatchOwner := None\<rparr> else st m)"
    using DynamicBatchRemove_other by blast
  show fr: "freshModels ?r model removed = firstOccurrences (filter (\<lambda>m. m \<noteq> model) removed)"
    by (rule freshModels_after_remove [OF d])
  {
    assume "DynamicBatchTriangleCount st model = Inr triCount"
    then show "DynamicBatchTriangleCount ?r model
               = Inr (sum_list (map (trianglesOf st)
                        (filter (\<lambda>m. m \<notin> set removed) (batchedModels st model))))"
      by (rule DynamicBatchRemove_count [OF d])
  }
  {
    assume c: "DynamicBatchTriangleCount ?r model = Inr left"
      and me: "\<forall>m\<in>set removed. ModelMesh (st m) \<noteq> None"
    have me': "\<forall>m\<in>set removed. ModelMesh (?r m) \<noteq> None"
      using me by (simp add: DynamicBatchRemove_mesh)
    have "snd (DynamicBatchAdd ?r model meshPart removed)
          = budgetOutcome ?r left (freshModels ?r model removed)"
      by (rule DynamicBatchAdd_decides [OF c me'])
    then show "snd (DynamicBatchAdd ?r model meshPart removed)
               = budgetOutcome st left (firstOccurrences (filter (\<lambda>m. m \<noteq> model) removed))"
      by (simp add: fr budgetOutcome_def trianglesOf_DynamicBatchRemove)
  }
qed
theorem DynamicBatchAdd_budget_witness:
  "DynamicBatchAdd batchStore 0 7 [1] = (batchedStore, None)
   \<and> DynamicBatchOwner (batchedStore 1) = Some 0
   \<and> map_of (DynamicBatchModels (batchedStore 0)) 7 = Some [1]
   \<and> snd (DynamicBatchAdd batchStore 0 7 [1, 2]) = Some TooManyTriangles
   \<and> DynamicBatchAdd batchStore 0 7 [1, 2] = (batchedStore, Some TooManyTriangles)
   \<and> DynamicBatchOwner (batchedStore 2) = None
   \<and> DynamicBatchAdd batchedStore 0 7 [0, 2] = (batchedStore, Some TooManyTriangles)
   \<and> batchedModels (DynamicBatchRemove batchedStore 0 [1]) 0 = []
   \<and> DynamicBatchOwner (DynamicBatchRemove batchedStore 0 [1] 1) = None
   \<and> DynamicBatchTriangleCount (DynamicBatchRemove batchedStore 0 [1]) 0 = Inr 0
   \<and> snd (DynamicBatchAdd (DynamicBatchRemove batchedStore 0 [1]) 0 7 [1]) = None
   \<and> (\<exists>pre failing post.
         [1, 2] = pre @ failing # post
         \<and> failing \<notin> set (freshModels batchStore 0 pre)
         \<and> batchedStore failing = batchStore failing
         \<and> overBudget batchedStore 0 failing)
   \<and> wellBatched (DynamicBatchRemove batchedStore 0 [1]) 0
   \<and> map_of (DynamicBatchModels (DynamicBatchRemove batchedStore 0 [1] 0)) 7 = None"
proof -
  have mesh0: "\<And>m. ModelMesh (batchStore m) = Some \<lparr>TrianglesLen = 12000, VertexPositionsLen = 36000\<rparr>"
    by (simp add: batchStore_def)
  have mesh1: "\<And>m. ModelMesh (batchedStore m) = Some \<lparr>TrianglesLen = 12000, VertexPositionsLen = 36000\<rparr>"
    by (simp add: batchedStore_def batchOne_mesh mesh0)
  have dbm0: "DynamicBatchModels (batchStore 0) = []"
    by (simp add: batchStore_def)
  have dbm1: "DynamicBatchModels (batchedStore 0) = [(7, [1])]"
    by (simp add: batchedStore_def batchOne_def batchStore_def Let_def)
  have own2: "DynamicBatchOwner (batchStore 2) = None"
    by (simp add: batchStore_def)
  have cnt0: "DynamicBatchTriangleCount batchStore 0 = Inr 0"
    by (simp add: DynamicBatchTriangleCount_def dbm0)
  have cnt1: "DynamicBatchTriangleCount batchedStore 0 = Inr 12000"
    by (simp add: DynamicBatchTriangleCount_def dbm1 mesh1)
  have b0: "\<And>m. \<not> modelAlreadyDynamicallyBatched batchStore 0 m"
    by (simp add: modelAlreadyDynamicallyBatched_def dbm0)
  have b1: "\<And>m. modelAlreadyDynamicallyBatched batchedStore 0 m = (m = 1)"
    by (auto simp: modelAlreadyDynamicallyBatched_def dbm1)
  have add1: "DynamicBatchAdd batchStore 0 7 [1] = (batchedStore, None)"
    by (simp add: b0 cnt0 mesh0 maxTriangleCount_def batchedStore_def)
  have all0: "\<forall>m\<in>set [1, 2]. ModelMesh (batchStore m) \<noteq> None"
    by (simp add: mesh0)
  have fr0: "freshModels batchStore 0 [1] = [1]" "freshModels batchStore 0 [1, 2] = [1, 2]"
    by (simp_all add: freshModels_def b0)
  have fr1: "freshModels batchedStore 0 [0, 2] = [2]"
    by (simp add: freshModels_def b1)
  have bo: "budgetOutcome batchStore 0 [1, 2] = Some TooManyTriangles"
    by (simp add: budgetOutcome_def trianglesOf_def mesh0 maxTriangleCount_def)
  have ob: "overBudget batchedStore 0 2"
    by (simp add: overBudget_def cnt1 mesh1 maxTriangleCount_def)
  have ne: "(2::nat) \<noteq> 0" by simp
  have nb: "\<not> modelAlreadyDynamicallyBatched batchedStore 0 2"
    by (simp add: b1)
  have wb: "wellBatched batchedStore 0"
    by (simp add: wellBatched_def batchedModels_def dbm1)
  have all1: "\<forall>m\<in>set [1]. ModelMesh (batchedStore m) \<noteq> None"
    by (simp add: mesh1)
  have bm1: "filter (\<lambda>m. m \<notin> set [1]) (batchedModels batchedStore 0) = []"
    by (simp add: batchedModels_def dbm1)
  have bo1: "budgetOutcome batchedStore 0 (firstOccurrences (filter (\<lambda>m. m \<noteq> 0) [1])) = None"
    by (simp add: budgetOutcome_def trianglesOf_def mesh1 maxTriangleCount_def)
  note T1 = DynamicBatchAdd_budget [where st = batchStore and model = 0 and meshPart = 7
      and ms = "[1, 2]" and triCount = 0 and st' = batchedStore]
  note T2 = DynamicBatchAdd_budget [where st = batchedStore and model = 0 and meshPart = 7
      and ms = "[0, 2]" and triCount = 12000 and first = 2 and others = "[]"
      and removed = "[1]" and left = 0]
  note T3 = DynamicBatchAdd_budget [where st = batchStore and model = 0 and meshPart = 7
      and ms = "[1]" and st' = batchedStore]
  have c3: "addedToBatch batchStore 0 7 [1] batchedStore"
    using T3 [THEN conjunct2, THEN conjunct2, THEN conjunct1] add1 fr0(1) by simp
  have w2: "DynamicBatchOwner (batchedStore 1) = Some 0"
    using c3 by (simp add: addedToBatch_def)
  have w3: "map_of (DynamicBatchModels (batchedStore 0)) 7 = Some [1]"
    using c3 by (simp add: addedToBatch_def partSlice_def dbm0)
  have w2b: "DynamicBatchOwner (batchedStore 2) = None"
    using c3 own2 by (simp add: addedToBatch_def)
  have w4: "snd (DynamicBatchAdd batchStore 0 7 [1, 2]) = Some TooManyTriangles"
    using T1 [THEN conjunct1] cnt0 all0 fr0(2) bo by simp
  have ex: "\<exists>pre failing post.
             [1, 2] = pre @ failing # post
             \<and> DynamicBatchAdd batchStore 0 7 pre = (batchedStore, None)
             \<and> failing \<noteq> 0
             \<and> \<not> modelAlreadyDynamicallyBatched batchedStore 0 failing
             \<and> overBudget batchedStore 0 failing"
    using add1 ne nb ob by (intro exI [of _ "[1]"] exI [of _ 2] exI [of _ "[]"]) simp
  have w5: "DynamicBatchAdd batchStore 0 7 [1, 2] = (batchedStore, Some TooManyTriangles)"
    using T1 [THEN conjunct2, THEN conjunct1] ex by blast
  have w6: "DynamicBatchAdd batchedStore 0 7 [0, 2] = (batchedStore, Some TooManyTriangles)"
    using T2 [THEN conjunct2, THEN conjunct2, THEN conjunct2, THEN conjunct2, THEN conjunct1]
      fr1 ob by simp
  note R = T2 [THEN conjunct2, THEN conjunct2, THEN conjunct2, THEN conjunct2, THEN conjunct2,
      rule_format, OF wb]
  have w7: "batchedModels (DynamicBatchRemove batchedStore 0 [1]) 0 = []"
    using R bm1 by simp
  have w8: "DynamicBatchOwner (DynamicBatchRemove batchedStore 0 [1] 1) = None"
    using R b1 by simp
  have w9: "DynamicBatchTriangleCount (DynamicBatchRemove batchedStore 0 [1]) 0 = Inr 0"
    using R cnt1 bm1 by simp
  have w10: "snd (DynamicBatchAdd (DynamicBatchRemove batchedStore 0 [1]) 0 7 [1]) = None"
    using R w9 all1 bo1 by simp
  have w11: "\<exists>pre failing post.
         [1, 2] = pre @ failing # post
         \<and> failing \<notin> set (freshModels batchStore 0 pre)
         \<and> batchedStore failing = batchStore failing
         \<and> overBudget batchedStore 0 failing"
    using T1 [THEN conjunct2, THEN conjunct2, THEN conjunct2, THEN conjunct1] w5 by blast
  have w12: "wellBatched (DynamicBatchRemove batchedStore 0 [1]) 0"
    using R by simp
  have w13: "map_of (DynamicBatchModels (DynamicBatchRemove batchedStore 0 [1] 0)) 7 = None"
    using R dbm1 by simp
  from add1 w2 w3 w4 w5 w2b w6 w7 w8 w9 w10 w11 w12 w13 show ?thesis by simp
qed

subsection \<open>Degenerate inputs\<close>

lemma mergeTotalSize_zero:
  "\<forall>m\<in>set models. m = model
      \<or> (\<exists>mesh. ModelMesh (st m) = Some mesh \<and> VertexPositionsLen mesh = 0) \<Longrightarrow>
   mergeTotalSize st model models totalSize = Inr totalSize"
  by (induction models arbitrary: totalSize) auto

lemma DynamicBatchAdd_self:
  "DynamicBatchAdd st model meshPart (replicate n model) = (st, None)"
  by (induction n) simp_all

text \<open>
  C9. \<open>Merge\<close> of Models that contribute no vertices (each is the target itself or has a
  Mesh without vertex positions; equally, whenever \<open>totalSize\<close> comes out as 0), \<open>BakeAO\<close>
  with a negative target channel, and \<open>DynamicBatchAdd\<close> of a Model into itself return
  without error and leave the store as it was; the geometry copy and the baking passes
  are not run.
\<close>

theorem degenerate_inputs_are_noops:
  "((\<forall>m\<in>set models. m = model
        \<or> (\<exists>mesh. ModelMesh (st m) = Some mesh \<and> VertexPositionsLen mesh = 0)) \<longrightarrow>
      Merge copyGeometry st model models = Inr st)
   \<and> (mergeTotalSize st model models 0 = Inr 0 \<longrightarrow> Merge copyGeometry st model models = Inr st)
   \<and> (TargetChannel opts < 0 \<longrightarrow> BakeAO bakePasses st model (Some opts) = Inr st)
   \<and> DynamicBatchAdd st model meshPart [model] = (st, None)
   \<and> DynamicBatchAdd st model meshPart (replicate n model) = (st, None)"
  by (simp add: Merge_def mergeTotalSize_zero BakeAO_def DynamicBatchAdd_self)

theorem degenerate_inputs_are_noops_witness:
  "Merge (\<lambda>st model models totalSize. Inl Panic) emptyMeshStore 0 [1, 0, 2] = Inr emptyMeshStore
   \<and> mergeTotalSize emptyMeshStore 0 [1, 0, 2] 0 = Inr 0
   \<and> BakeAO (\<lambda>st model opts. Inl Panic) emptyMeshStore 0
         (Some \<lparr>TargetChannel = - 1, OcclusionAngle = 1, InterModelDistance = 1, OtherModels = []\<rparr>)
       = Inr emptyMeshStore
   \<and> DynamicBatchAdd emptyMeshStore 0 7 [0] = (emptyMeshStore, None)"
proof -
  have h1: "\<forall>m\<in>set [1, 0, 2]. m = (0::nat)
      \<or> (\<exists>mesh. ModelMesh (emptyMeshStore m) = Some mesh \<and> VertexPositionsLen mesh = 0)"
    by (simp add: emptyMeshStore_def)
  have h2: "mergeTotalSize emptyMeshStore 0 [1, 0, 2] 0 = Inr 0"
    by (simp add: emptyMeshStore_def)
  have h3: "TargetChannel \<lparr>TargetChannel = - 1, OcclusionAngle = 1, InterModelDistance = 1,
              OtherModels = []\<rparr> < 0"
    by simp
  show ?thesis
    using degenerate_inputs_are_noops [of "[1, 0, 2]" 0 emptyMeshStore
        "\<lambda>st model models totalSize. Inl Panic"
        "\<lparr>TargetChannel = - 1, OcclusionAngle = 1, InterModelDistance = 1, OtherModels = []\<rparr>"
        "\<lambda>st model opts. Inl Panic" 7 1]
      h1 h2 h3
    by blast
qed

section \<open>Properties of the bounds and of the ambient-occlusion tests\<close>

subsection \<open>The bounds\<close>

text \<open>
  While the low corner is below the high corner on each axis, one step of the loop takes
  the minimum and the maximum with the vertex; as both corners start at the origin, the
  loop ends with the extent of the vertex positions and the origin.
\<close>

lemma boundsStep_explicit:
  "a0 \<le> b0 \<Longrightarrow> a1 \<le> b1 \<Longrightarrow> a2 \<le> b2 \<Longrightarrow>
   boundsStep v ([a0, a1, a2], [b0, b1, b2])
   = ([min a0 (Position v ! 0), min a1 (Position v ! 1), min a2 (Position v ! 2)],
      [max b0 (Position v ! 0), max b1 (Position v ! 1), max b2 (Position v ! 2)])"
  by (simp add: boundsStep_def updateAxis_def min_def max_def)

lemma fold_boundsStep:
  "a0 \<le> b0 \<Longrightarrow> a1 \<le> b1 \<Longrightarrow> a2 \<le> b2 \<Longrightarrow>
   fold boundsStep vs ([a0, a1, a2], [b0, b1, b2])
   = ([fold min (map (\<lambda>v. Position v ! 0) vs) a0, fold min (map (\<lambda>v. Position v ! 1) vs) a1,
       fold min (map (\<lambda>v. Position v ! 2) vs) a2],
      [fold max (map (\<lambda>v. Position v ! 0) vs) b0, fold max (map (\<lambda>v. Position v ! 1) vs) b1,
       fold max (map (\<lambda>v. Position v ! 2) vs) b2])"
proof (induction vs arbitrary: a0 a1 a2 b0 b1 b2)
  case Nil
  then show ?case by simp
next
  case (Cons v vs)
  have "fold boundsStep (v # vs) ([a0, a1, a2], [b0, b1, b2])
        = fold boundsStep vs
            ([min a0 (Position v ! 0), min a1 (Position v ! 1), min a2 (Position v ! 2)],
             [max b0 (Position v ! 0), max b1 (Position v ! 1), max b2 (Position v ! 2)])"
    using Cons.prems by (simp add: boundsStep_explicit)
  also have "\<dots> = ([fold min (map (\<lambda>v. Position v ! 0) vs) (min a0 (Position v ! 0)),
                     fold min (map (\<lambda>v. Position v ! 1) vs) (min a1 (Position v ! 1)),
                     fold min (map (\<lambda>v. Position v ! 2) vs) (min a2 (Position v ! 2))],
                    [fold max (map (\<lambda>v. Position v ! 0) vs) (max b0 (Position v ! 0)),
                     fold max (map (\<lambda>v. Position v ! 1) vs) (max b1 (Position v ! 1)),
                     fold max (map (\<lambda>v. Position v ! 2) vs) (max b2 (Position v ! 2))])"
    using Cons.prems by (intro Cons.IH) (auto simp: min_def max_def)
  finally show ?case by (simp add: min.commute max.commute)
qed

lemma fold_min_Min: "fold min xs (a::real) = Min (insert a (set xs))"
  using Min.set_eq_fold [of a xs] by simp

lemma fold_max_Max: "fold max xs (a::real) = Max (insert a (set xs))"
  using Max.set_eq_fold [of a xs] by simp

lemma UpdateBounds_extent_with_origin:
  "\<not> list_ex (\<lambda>v. length (Position v) < 3) (Vertices mesh) \<Longrightarrow>
   UpdateBounds mesh
   = Inr (mesh\<lparr>BoundingSphere :=
            \<lparr>Radius = Magnitude (vecSub (originHigh (Vertices mesh)) (originLow (Vertices mesh))) / 2,
             SpherePosition =
               vecScale (vecAdd (originLow (Vertices mesh)) (originHigh (Vertices mesh))) 0.5\<rparr>\<rparr>)"
  by (simp add: UpdateBounds_def fold_boundsStep fold_min_Min fold_max_Max originLow_def
      originHigh_def del: set_map)

text \<open>
  When on every axis some vertex is at or below 0 and some vertex is at or above 0, the
  origin adds nothing and the sphere is the one the specification describes.
\<close>

lemma UpdateBounds_extent_around_origin:
  assumes "\<not> list_ex (\<lambda>v. length (Position v) < 3) (Vertices mesh)"
    and "Vertices mesh \<noteq> []"
    and "\<forall>i<3. \<exists>v\<in>set (Vertices mesh). Position v ! i \<le> 0"
    and "\<forall>i<3. \<exists>v\<in>set (Vertices mesh). 0 \<le> Position v ! i"
  shows "UpdateBounds mesh = Inr (mesh\<lparr>BoundingSphere := extentSphere (Vertices mesh)\<rparr>)"
proof -
  have lo: "Min (insert 0 (set (map (\<lambda>v. Position v ! i) (Vertices mesh))))
            = Min (set (map (\<lambda>v. Position v ! i) (Vertices mesh)))" if i3: "i < 3" for i
  proof -
    define S where "S = set (map (\<lambda>v. Position v ! i) (Vertices mesh))"
    have fin: "finite S" and ne: "S \<noteq> {}" using assms(2) by (simp_all add: S_def)
    obtain v where v: "v \<in> set (Vertices mesh)" "Position v ! i \<le> 0"
      using assms(3) i3 by blast
    have "Position v ! i \<in> S" using v(1) by (simp add: S_def)
    then have "Min S \<le> Position v ! i" using fin by (rule Min_le [rotated])
    then have "Min S \<le> 0" using v(2) by linarith
    moreover have "Min (insert 0 S) = min 0 (Min S)" using fin ne by (rule Min_insert)
    ultimately have "Min (insert 0 S) = Min S" by (simp add: min_def)
    then show ?thesis by (simp only: S_def)
  qed
  have hi: "Max (insert 0 (set (map (\<lambda>v. Position v ! i) (Vertices mesh))))
            = Max (set (map (\<lambda>v. Position v ! i) (Vertices mesh)))" if i3: "i < 3" for i
  proof -
    define S where "S = set (map (\<lambda>v. Position v ! i) (Vertices mesh))"
    have fin: "finite S" and ne: "S \<noteq> {}" using assms(2) by (simp_all add: S_def)
    obtain v where v: "v \<in> set (Vertices mesh)" "0 \<le> Position v ! i"
      using assms(4) i3 by blast
    have "Position v ! i \<in> S" using v(1) by (simp add: S_def)
    then have "Position v ! i \<le> Max S" using fin by (rule Max_ge [rotated])
    then have "0 \<le> Max S" using v(2) by linarith
    moreover have "Max (insert 0 S) = max 0 (Max S)" using fin ne by (rule Max_insert)
    ultimately have "Max (insert 0 S) = Max S" by (simp add: max_def)
    then show ?thesis by (simp only: S_def)
  qed
  have "originLow (Vertices mesh) = extentLow (Vertices mesh)"
    unfolding originLow_def extentLow_def using lo by simp
  moreover have "originHigh (Vertices mesh) = extentHigh (Vertices mesh)"
    unfolding originHigh_def extentHigh_def using hi by simp
  ultimately show ?thesis
    using UpdateBounds_extent_with_origin [OF assms(1)] by (simp add: extentSphere_def)
qed

lemma sqrt_49: "sqrt 49 = 7"
  by (rule real_sqrt_unique) simp_all

lemma sqrt_9: "sqrt 9 = 3"
  by (rule real_sqrt_unique) simp_all


text \<open>
  C6. The claim: after \<open>UpdateBounds\<close> the sphere's centre is the midpoint of the extent
  of the vertex positions and its radius half of the extent's diagonal. Both extents
  start at the origin, so the extent that \<open>UpdateBounds\<close> computes always contains the
  origin. For the triangle with corners \<open>(1, 1, 4)\<close>, \<open>(2, 3, 6)\<close>, \<open>(1, 3, 4)\<close> the
  extent of the positions has midpoint \<open>(3/2, 2, 5)\<close> and half diagonal \<open>3/2\<close>;
  \<open>UpdateBounds\<close> sets the centre \<open>(1, 3/2, 3)\<close> and the radius \<open>7/2\<close>.
\<close>

theorem UpdateBounds_includes_origin:
  "UpdateBounds cornerMesh
     = Inr (cornerMesh\<lparr>BoundingSphere := \<lparr>Radius = 7 / 2, SpherePosition = [1, 3 / 2, 3]\<rparr>\<rparr>)
   \<and> extentSphere (Vertices cornerMesh) = \<lparr>Radius = 3 / 2, SpherePosition = [3 / 2, 2, 5]\<rparr>"
  by (simp add: UpdateBounds_def cornerMesh_def boundsStep_def updateAxis_def Magnitude_def
      vecSub_def vecAdd_def vecScale_def extentSphere_def extentLow_def extentHigh_def
      sqrt_49 sqrt_9)

subsection \<open>The proximity tests of \<open>BakeAO\<close>\<close>

text \<open>
  The same-object pass compares the squared distance with the square of 0.66 times the
  span, which is the test of the specification when a span is not negative.
\<close>

lemma sq_less_iff_sqrt:
  fixes d s :: real
  assumes "0 \<le> s" and "0 \<le> d"
  shows "(d > s * s) = (sqrt d > s)"
proof
  assume "d > s * s"
  then have "sqrt (s * s) < sqrt d" by (simp only: real_sqrt_less_iff)
  then show "sqrt d > s" using assms by simp
next
  assume "sqrt d > s"
  then have "s * s < sqrt d * sqrt d" using assms by (intro mult_strict_mono') simp_all
  then show "d > s * s" using assms by simp
qed

lemma sameModelPairSkipped_iff:
  assumes "0 \<le> MaxSpan tri \<or> 0 \<le> MaxSpan other"
  shows "sameModelPairSkipped tri other
         = centroidsTooFar (Center tri) (Center other) (MaxSpan tri) (MaxSpan other)"
proof -
  define s where "s = max (MaxSpan tri) (MaxSpan other) * 0.66"
  define d where "d = fastVectorDistanceSquared (Center tri) (Center other)"
  have s0: "0 \<le> s" using assms by (auto simp: s_def max_def)
  have d0: "0 \<le> d" by (simp add: d_def fastVectorDistanceSquared_def Let_def)
  have m: "(if MaxSpan other > MaxSpan tri then MaxSpan other else MaxSpan tri)
           = max (MaxSpan tri) (MaxSpan other)" by (simp add: max_def)
  have "sameModelPairSkipped tri other = (d > s * s)"
    unfolding sameModelPairSkipped_def Let_def m s_def d_def ..
  also have "\<dots> = (sqrt d > s)" by (rule sq_less_iff_sqrt [OF s0 d0])
  also have "\<dots> = centroidsTooFar (Center tri) (Center other) (MaxSpan tri) (MaxSpan other)"
    unfolding centroidsTooFar_def s_def d_def by (simp add: mult.commute)
  finally show ?thesis .
qed

text \<open>
  C8. The claim: in both passes a pair is skipped when the distance of the centroids is
  more than 0.66 times the larger span. The inter-object pass compares the squared
  distance with 0.66 times the span, not with its square: two triangles of span 1 whose
  centroids are 3/4 apart (more than 0.66) are skipped by the same-object test and not
  skipped by the inter-object test under identity transforms (9/16 is not more than
  0.66).
\<close>

theorem inter_model_pair_not_skipped:
  "centroidsTooFar (Center triNear) (Center triFar) (MaxSpan triNear) (MaxSpan triFar)
   \<and> sameModelPairSkipped triNear triFar
   \<and> \<not> interModelPairSkipped (\<lambda>m v. v) () () triNear triFar"
proof -
  have s: "sameModelPairSkipped triNear triFar"
    by (simp add: sameModelPairSkipped_def triNear_def triFar_def
        fastVectorDistanceSquared_def Let_def)
  have c: "centroidsTooFar (Center triNear) (Center triFar) (MaxSpan triNear) (MaxSpan triFar)"
    using s sameModelPairSkipped_iff [of triNear triFar] by (simp add: triNear_def)
  have i: "\<not> interModelPairSkipped (\<lambda>m v. v) () () triNear triFar"
    by (simp add: interModelPairSkipped_def triNear_def triFar_def
        fastVectorDistanceSquared_def Let_def)
  from c s i show ?thesis by simp
qed

section \<open>Properties of the normal\<close>

text \<open>
  For corners that are not collinear, and a \<open>Unit\<close> that scales every vector of
  non-zero length to length one, \<open>calculateNormal\<close> returns the cross product of
  \<open>p2 - p1\<close> and \<open>p3 - p2\<close> scaled to length one. For collinear corners the cross product
  is the zero vector and the result is whatever \<open>Unit\<close> returns for it.
\<close>

lemma sum_squares_scaled:
  fixes c :: real
  shows "sum_list (map (\<lambda>x. x * x) (map (\<lambda>x. x / c) v)) = sum_list (map (\<lambda>x. x * x) v) / (c * c)"
  by (induction v) (simp_all add: add_divide_distrib comp_def)

lemma Magnitude_scaledToUnit:
  assumes "Magnitude v \<noteq> 0"
  shows "Magnitude (scaledToUnit v) = 1"
proof -
  define S where "S = sum_list (map (\<lambda>x. x * x) v)"
  have m: "Magnitude v = sqrt S" by (simp add: Magnitude_def S_def)
  have "0 \<le> S" unfolding S_def by (induction v) simp_all
  then have pos: "0 < sqrt S" using assms m by (simp add: less_le)
  have "Magnitude (scaledToUnit v) = sqrt (S / (sqrt S * sqrt S))"
    unfolding scaledToUnit_def Magnitude_def [of "map _ v"] m sum_squares_scaled S_def ..
  also have "\<dots> = sqrt S / sqrt S"
    using pos by (simp add: real_sqrt_divide real_sqrt_mult)
  also have "\<dots> = 1" using pos by simp
  finally show ?thesis .
qed

lemma Magnitude_Cross_zero: "(Magnitude (Cross a b) = 0) = (Cross a b = [0, 0, 0])"
  by (auto simp: Magnitude_def Cross_def add_nonneg_eq_0_iff)

lemma calculateNormal_unit_length:
  assumes "unitOnNonZero Unit"
    and "Cross (vecSub p2 p1) (vecSub p3 p2) \<noteq> [0, 0, 0]"
  shows "calculateNormal Unit p1 p2 p3 = scaledToUnit (Cross (vecSub p2 p1) (vecSub p3 p2))
         \<and> Magnitude (calculateNormal Unit p1 p2 p3) = 1"
proof -
  have nz: "Magnitude (Cross (vecSub p2 p1) (vecSub p3 p2)) \<noteq> 0"
    using assms(2) by (simp add: Magnitude_Cross_zero)
  then have "calculateNormal Unit p1 p2 p3 = scaledToUnit (Cross (vecSub p2 p1) (vecSub p3 p2))"
    using assms(1) by (simp add: calculateNormal_def unitOnNonZero_def Let_def)
  then show ?thesis
    using Magnitude_scaledToUnit [OF nz] by simp
qed

lemma calculateNormal_collinear:
  "Cross (vecSub p2 p1) (vecSub p3 p2) = [0, 0, 0] \<Longrightarrow>
   calculateNormal Unit p1 p2 p3 = Unit [0, 0, 0]"
  by (simp add: calculateNormal_def Let_def)

lemma RecalculateNormal_normal:
  "length (TriVertices tri) \<ge> 3 \<Longrightarrow>
   RecalculateNormal Unit tri
   = Inr (tri\<lparr>Normal := calculateNormal Unit (Position (TriVertices tri ! 0))
                            (Position (TriVertices tri ! 1)) (Position (TriVertices tri ! 2))\<rparr>)"
  by (simp add: RecalculateNormal_def)

lemma collinear_example:
  "Cross (vecSub [1, 0, 0] [0, 0, 0]) (vecSub [2, 0, 0] [1, 0, 0]) = [0, 0, 0]
   \<and> calculateNormal Unit [0, 0, 0] [1, 0, 0] [2, 0, 0] = Unit [0, 0, 0]"
  by (simp add: calculateNormal_def Cross_def vecSub_def Let_def)

end
